theory Spec2Isabelle
  imports Main "HOL-Library.Sublist"
begin

section \<open>AdventureForge: the story graph and its mutations\<close>

text \<open>
  The development follows \<^verbatim>\<open>types.ts\<close>, \<^verbatim>\<open>components/StoryEditor.tsx\<close>,
  \<^verbatim>\<open>components/StoryPlayer.tsx\<close> and \<^verbatim>\<open>App.tsx\<close>. React state is passed
  explicitly: every handler takes the values its closure captured and returns the
  document it hands to \<^verbatim>\<open>onUpdateStory\<close> (or the unchanged document), together with
  a report of the alert it raised where it has one.
\<close>

subsection \<open>Plain objects used as dictionaries\<close>

text \<open>
  \<^verbatim>\<open>Record<string, StoryNode>\<close> is a plain JavaScript object. It is modelled by the
  list of its own properties in insertion order (the order \<^verbatim>\<open>Object.keys\<close> and
  \<^verbatim>\<open>Object.values\<close> enumerate, for keys that are not canonical array indices).
  A JavaScript object never holds one key twice; \<open>distinct (object_keys obj)\<close> states
  that, and is an assumption wherever a result depends on it. One assignment
  is outside the model: on an object without an own property \<^verbatim>\<open>__proto__\<close>,
  \<^verbatim>\<open>obj["__proto__"] = v\<close> sets the prototype and creates no key, where \<open>prop_set\<close>
  appends one. The ids the handlers mint (\<^verbatim>\<open>node-...\<close>, \<^verbatim>\<open>ai-node-...\<close>) are never
  that key; a handler that writes under an id taken from the document can meet it
  (\<^verbatim>\<open>JSON.parse\<close> creates \<^verbatim>\<open>__proto__\<close> as an own key, and a later delete removes it),
  and a statement that such a write makes the id a key excludes it.
\<close>

type_synonym 'v jsobject = "(string \<times> 'v) list"

definition object_keys :: "'v jsobject \<Rightarrow> string list" where
  "object_keys obj = map fst obj"

definition object_values :: "'v jsobject \<Rightarrow> 'v list" where
  "object_values obj = map snd obj"

text \<open>\<^verbatim>\<open>obj[k]\<close> on an own property; \<open>None\<close> is \<^verbatim>\<open>undefined\<close>.\<close>

fun prop_get :: "'v jsobject \<Rightarrow> string \<Rightarrow> 'v option" where
  "prop_get [] k = None"
| "prop_get ((k', v') # ps) k = (if k' = k then Some v' else prop_get ps k)"

text \<open>\<^verbatim>\<open>obj[k] = v\<close>: an existing key keeps its place, a new key goes last.\<close>

fun prop_set :: "'v jsobject \<Rightarrow> string \<Rightarrow> 'v \<Rightarrow> 'v jsobject" where
  "prop_set [] k v = [(k, v)]"
| "prop_set ((k', v') # ps) k v =
     (if k' = k then (k, v) # ps else (k', v') # prop_set ps k v)"

text \<open>\<^verbatim>\<open>delete obj[k]\<close>.\<close>

definition prop_delete :: "'v jsobject \<Rightarrow> string \<Rightarrow> 'v jsobject" where
  "prop_delete obj k = filter (\<lambda>p. fst p \<noteq> k) obj"

subsection \<open>The document: \<^verbatim>\<open>types.ts\<close>\<close>

text \<open>
  The field \<^verbatim>\<open>id\<close> of the three interfaces is written \<open>choice_id\<close>, \<open>node_id\<close> and
  \<open>story_id\<close>, and \<^verbatim>\<open>Choice.text\<close> is \<open>choice_text\<close>. An optional field is an
  \<open>option\<close>. \<^verbatim>\<open>Story.id\<close> is declared a string, but no import checks it, so it
  is an \<open>option\<close> as well; no handler reads it.
\<close>

record Choice =
  choice_id :: string
  choice_text :: string
  targetNodeId :: string

record StoryNode =
  node_id :: string
  title :: string
  content :: string
  choices :: "Choice list"
  isAiGenerated :: "bool option"
  imageUrl :: "string option"

record Story =
  story_id :: "string option"
  name :: string
  nodes :: "StoryNode jsobject"
  startNodeId :: string
  imageStyle :: "string option"

subsection \<open>Numbers in template literals\<close>

text \<open>
  \<^verbatim>\<open>`${Date.now()}`\<close> and \<^verbatim>\<open>`${idx}`\<close> print a non-negative integer in decimal.
  A reading of \<^verbatim>\<open>Date.now()\<close> is a parameter of the handler that takes it.
\<close>

definition digit_char :: "nat \<Rightarrow> char" where
  "digit_char d = ''0123456789'' ! d"

fun digits :: "nat \<Rightarrow> string" where
  "digits n = (if n < 10 then [digit_char n] else digits (n div 10) @ [digit_char (n mod 10)])"

declare digits.simps [simp del]

text \<open>
  Reading a decimal numeral back (\<^verbatim>\<open>parseInt\<close> on a string of digits), used to show that
  distinct numbers print differently.
\<close>

fun position :: "'a list \<Rightarrow> 'a \<Rightarrow> nat" where
  "position [] c = 0"
| "position (x # xs) c = (if x = c then 0 else Suc (position xs c))"

definition digit_value :: "char \<Rightarrow> nat" where
  "digit_value c = position ''0123456789'' c"

fun decimal_value :: "nat \<Rightarrow> string \<Rightarrow> nat" where
  "decimal_value acc [] = acc"
| "decimal_value acc (c # cs) = decimal_value (10 * acc + digit_value c) cs"

subsection \<open>The editor: \<^verbatim>\<open>StoryEditor.tsx\<close>\<close>

text \<open>
  The callback of \<^verbatim>\<open>const linkedNodeIds = useMemo(() => ..., [story.nodes])\<close>: it fills
  a \<^verbatim>\<open>Set\<close> in two nested \<^verbatim>\<open>forEach\<close> loops. When the callback runs, and what
  \<^verbatim>\<open>isOrphan\<close> reads, is the subject of the section on the editor's memoised set below.
\<close>

definition collectLinkedNodeIds :: "StoryNode jsobject \<Rightarrow> string set" where
  "collectLinkedNodeIds ns =
     fold (\<lambda>node ids. fold (\<lambda>choice ids. insert (targetNodeId choice) ids) (choices node) ids)
       (object_values ns) {}"

text \<open>
  \<^verbatim>\<open>handleDeleteNode\<close>. The third argument is the answer to the \<^verbatim>\<open>confirm\<close> dialog.
  The loop over \<^verbatim>\<open>Object.keys(newStory.nodes)\<close> reads each node and stores it back
  with its choices filtered.
\<close>

datatype delete_report = OriginCannotBeUnmade | DeleteCancelled | SceneErased

definition pruneChoices :: "string \<Rightarrow> StoryNode \<Rightarrow> StoryNode" where
  "pruneChoices ident node =
     node\<lparr>choices := filter (\<lambda>c. targetNodeId c \<noteq> ident) (choices node)\<rparr>"

definition pruneKey :: "string \<Rightarrow> string \<Rightarrow> StoryNode jsobject \<Rightarrow> StoryNode jsobject" where
  "pruneKey ident nodeKey ns =
     (case prop_get ns nodeKey of
        None \<Rightarrow> ns
      | Some node \<Rightarrow> prop_set ns nodeKey (pruneChoices ident node))"

definition handleDeleteNode :: "Story \<Rightarrow> string \<Rightarrow> bool \<Rightarrow> delete_report \<times> Story" where
  "handleDeleteNode story ident confirmed =
     (if ident = startNodeId story then (OriginCannotBeUnmade, story)
      else if confirmed then
        (let ns = prop_delete (nodes story) ident
         in (SceneErased, story\<lparr>nodes := fold (pruneKey ident) (object_keys ns) ns\<rparr>))
      else (DeleteCancelled, story))"

text \<open>
  \<^verbatim>\<open>handleSaveNode\<close> stores the draft \<^verbatim>\<open>editNode\<close> under the draft's own id;
  \<open>None\<close> is the draft \<^verbatim>\<open>null\<close>.
\<close>

definition handleSaveNode :: "Story \<Rightarrow> StoryNode option \<Rightarrow> Story" where
  "handleSaveNode story editNode =
     (case editNode of
        None \<Rightarrow> story
      | Some e \<Rightarrow> story\<lparr>nodes := prop_set (nodes story) (node_id e) e\<rparr>)"

text \<open>\<^verbatim>\<open>handleAddNode\<close>; \<open>now\<close> is the reading of \<^verbatim>\<open>Date.now()\<close>.\<close>

definition newNodeId :: "nat \<Rightarrow> string" where
  "newNodeId now = ''node-'' @ digits now"

definition newNode :: "string \<Rightarrow> StoryNode" where
  "newNode newId =
     \<lparr>node_id = newId, title = ''New Chapter'', content = ''A new thread begins...'',
      choices = [], isAiGenerated = None, imageUrl = None\<rparr>"

definition handleAddNode :: "Story \<Rightarrow> nat \<Rightarrow> Story" where
  "handleAddNode story now =
     (let newId = newNodeId now
      in story\<lparr>nodes := prop_set (nodes story) newId (newNode newId)\<rparr>)"

text \<open>
  The draft operations. \<^verbatim>\<open>handleAddChoice\<close> appends a choice that targets the start
  node. The destination \<^verbatim>\<open><select>\<close> of choice \<open>idx\<close> writes
  \<^verbatim>\<open>newChoices[idx].targetNodeId\<close>, and the remove button of choice \<open>idx\<close> keeps
  \<^verbatim>\<open>editNode.choices.filter((_, i) => i !== idx)\<close>. Both are rendered per choice, so
  \<open>idx\<close> is an index of the draft's list; \<open>retargetChoice\<close> leaves the draft as it is
  for any other \<open>idx\<close>. The draft reaches the document through \<open>handleSaveNode\<close>.
  (The \<^verbatim>\<open><select>\<close> writes into the choice object itself, which a draft loaded from
  the document shares with the stored node; a choice that \<open>handleAddChoice\<close> has just
  created belongs to the draft alone, and that is the only use made of \<open>retargetChoice\<close>
  below.)
\<close>

definition handleAddChoice :: "Story \<Rightarrow> StoryNode option \<Rightarrow> nat \<Rightarrow> StoryNode option" where
  "handleAddChoice story editNode now =
     (case editNode of
        None \<Rightarrow> None
      | Some e \<Rightarrow>
          Some (e\<lparr>choices := choices e @
            [\<lparr>choice_id = ''choice-'' @ digits now, choice_text = ''New Path'',
              targetNodeId = startNodeId story\<rparr>]\<rparr>))"

definition retargetChoice :: "StoryNode \<Rightarrow> nat \<Rightarrow> string \<Rightarrow> StoryNode" where
  "retargetChoice editNode idx target =
     (if idx < length (choices editNode)
      then editNode\<lparr>choices := (choices editNode)
             [idx := (choices editNode ! idx)\<lparr>targetNodeId := target\<rparr>]\<rparr>
      else editNode)"

fun filterIndex :: "(nat \<Rightarrow> bool) \<Rightarrow> nat \<Rightarrow> 'a list \<Rightarrow> 'a list" where
  "filterIndex p i [] = []"
| "filterIndex p i (x # xs) =
     (if p i then x # filterIndex p (Suc i) xs else filterIndex p (Suc i) xs)"

definition removeChoice :: "StoryNode \<Rightarrow> nat \<Rightarrow> StoryNode" where
  "removeChoice editNode idx =
     editNode\<lparr>choices := filterIndex (\<lambda>i. i \<noteq> idx) 0 (choices editNode)\<rparr>"

text \<open>
  Import. \<^verbatim>\<open>JSON.parse(content) as Story\<close> checks nothing, so the parsed value has
  every top-level field optional. \<open>NoFile\<close> is an empty file selection and \<open>BadJson\<close>
  a \<^verbatim>\<open>JSON.parse\<close> that throws. \<^verbatim>\<open>!x\<close> holds of a missing field and of the empty
  string; it does not hold of an object, even an empty one. \<open>asStory\<close> is the cast,
  applied only where the three fields it reads are present.
\<close>

record RawStory =
  raw_id :: "string option"
  raw_name :: "string option"
  raw_nodes :: "StoryNode jsobject option"
  raw_startNodeId :: "string option"
  raw_imageStyle :: "string option"

datatype file_input = NoFile | BadJson | Parsed RawStory

definition truthy :: "string option \<Rightarrow> bool" where
  "truthy s = (case s of None \<Rightarrow> False | Some v \<Rightarrow> v \<noteq> [])"

datatype import_report = NothingChosen | ImportFailed | SagaIntegrated

definition asStory :: "RawStory \<Rightarrow> Story" where
  "asStory raw =
     \<lparr>story_id = raw_id raw, name = the (raw_name raw), nodes = the (raw_nodes raw),
      startNodeId = the (raw_startNodeId raw), imageStyle = raw_imageStyle raw\<rparr>"

definition StoryEditor_handleImportFile :: "Story \<Rightarrow> file_input \<Rightarrow> import_report \<times> Story" where
  "StoryEditor_handleImportFile story file =
     (case file of
        NoFile \<Rightarrow> (NothingChosen, story)
      | BadJson \<Rightarrow> (ImportFailed, story)
      | Parsed importedStory \<Rightarrow>
          if raw_nodes importedStory = None \<or> \<not> truthy (raw_startNodeId importedStory)
             \<or> \<not> truthy (raw_name importedStory)
          then (ImportFailed, story)
          else (SagaIntegrated, asStory importedStory))"

subsection \<open>The welcome screen: \<^verbatim>\<open>App.tsx\<close>\<close>

text \<open>
  \<^verbatim>\<open>App.handleImportFile\<close> stages the parsed value in \<^verbatim>\<open>pendingImport\<close> and
  \<^verbatim>\<open>finalizeImport\<close> makes it the document. The only failure of the first is an
  exception: \<^verbatim>\<open>Object.keys(importedStory.nodes)\<close> throws when \<^verbatim>\<open>nodes\<close> is missing.
  \<^verbatim>\<open>resizeBase64Image\<close> is a parameter; \<open>None\<close> is a promise that never settles
  (the function has no \<^verbatim>\<open>onerror\<close>). Since nothing is checked, the document cell
  of \<^verbatim>\<open>App\<close> holds a \<open>RawStory\<close>.
\<close>

datatype staging_report = NoFileChosen | CorruptedSaga | NeverSettles | SagaDetected

definition resizeNode :: "(string \<Rightarrow> string option) \<Rightarrow> StoryNode \<Rightarrow> StoryNode option" where
  "resizeNode resizeBase64Image node =
     (case imageUrl node of
        None \<Rightarrow> Some node
      | Some url \<Rightarrow>
          if url \<noteq> [] \<and> prefix ''data:image'' url
          then map_option (\<lambda>r. node\<lparr>imageUrl := Some r\<rparr>) (resizeBase64Image url)
          else Some node)"

fun resizeNodes ::
  "(string \<Rightarrow> string option) \<Rightarrow> string list \<Rightarrow> StoryNode jsobject \<Rightarrow> StoryNode jsobject option" where
  "resizeNodes resizeBase64Image [] ns = Some ns"
| "resizeNodes resizeBase64Image (ident # nodeIds) ns =
     (case prop_get ns ident of
        None \<Rightarrow> resizeNodes resizeBase64Image nodeIds ns
      | Some node \<Rightarrow>
          (case resizeNode resizeBase64Image node of
             None \<Rightarrow> None
           | Some node' \<Rightarrow> resizeNodes resizeBase64Image nodeIds (prop_set ns ident node')))"

definition App_handleImportFile ::
  "RawStory option \<Rightarrow> file_input \<Rightarrow> (string \<Rightarrow> string option) \<Rightarrow> staging_report \<times> RawStory option" where
  "App_handleImportFile pendingImport file resizeBase64Image =
     (case file of
        NoFile \<Rightarrow> (NoFileChosen, pendingImport)
      | BadJson \<Rightarrow> (CorruptedSaga, pendingImport)
      | Parsed importedStory \<Rightarrow>
          (case raw_nodes importedStory of
             None \<Rightarrow> (CorruptedSaga, pendingImport)
           | Some ns \<Rightarrow>
               (case resizeNodes resizeBase64Image (object_keys ns) ns of
                  None \<Rightarrow> (NeverSettles, pendingImport)
                | Some ns' \<Rightarrow> (SagaDetected, Some (importedStory\<lparr>raw_nodes := Some ns'\<rparr>)))))"

text \<open>A checked document as \<^verbatim>\<open>JSON.parse\<close> returns it from an exported file.\<close>

definition asRaw :: "Story \<Rightarrow> RawStory" where
  "asRaw story =
     \<lparr>raw_id = story_id story, raw_name = Some (name story), raw_nodes = Some (nodes story),
      raw_startNodeId = Some (startNodeId story), raw_imageStyle = imageStyle story\<rparr>"

definition finalizeImport :: "RawStory \<Rightarrow> RawStory option \<Rightarrow> RawStory \<times> RawStory option" where
  "finalizeImport story pendingImport =
     (case pendingImport of
        None \<Rightarrow> (story, pendingImport)
      | Some imp \<Rightarrow> (imp, None))"

subsection \<open>The player: \<^verbatim>\<open>StoryPlayer.tsx\<close>\<close>

text \<open>
  The session is the pair of state cells \<^verbatim>\<open>currentNodeId\<close> and \<^verbatim>\<open>history\<close>,
  both initialised from \<^verbatim>\<open>story.startNodeId\<close>. The Restart button evaluates
  \<^verbatim>\<open>confirm("Restart?") && setCurrentNodeId(story.startNodeId)\<close>.
\<close>

record Session =
  currentNodeId :: string
  history :: "string list"

definition initialSession :: "Story \<Rightarrow> Session" where
  "initialSession story = \<lparr>currentNodeId = startNodeId story, history = [startNodeId story]\<rparr>"

definition handleChoice :: "Session \<Rightarrow> string \<Rightarrow> Session" where
  "handleChoice sess targetId = \<lparr>currentNodeId = targetId, history = history sess @ [targetId]\<rparr>"

definition handleStepBack :: "Session \<Rightarrow> Session" where
  "handleStepBack sess =
     (if length (history sess) \<le> 1 then sess
      else (let newHistory = butlast (history sess)
            in \<lparr>currentNodeId = last newHistory, history = newHistory\<rparr>))"

definition restart :: "Story \<Rightarrow> Session \<Rightarrow> bool \<Rightarrow> Session" where
  "restart story sess confirmed =
     (if confirmed then sess\<lparr>currentNodeId := startNodeId story\<rparr> else sess)"

text \<open>
  The result of \<^verbatim>\<open>generateNextSteps\<close>. Its response schema requires \<^verbatim>\<open>nodeContent\<close>,
  \<^verbatim>\<open>choices\<close> and each choice's \<^verbatim>\<open>text\<close>; \<^verbatim>\<open>nodeDescription\<close> and
  \<^verbatim>\<open>targetExistingNodeId\<close> may be absent. \<^verbatim>\<open>nodeContent\<close> is only used under
  \<^verbatim>\<open>||\<close>, where an absent and an empty string behave alike.
\<close>

record ChoiceDescriptor =
  descriptor_text :: string
  nodeDescription :: "string option"
  targetExistingNodeId :: "string option"

record Expansion =
  nodeContent :: "string option"
  expansion_choices :: "ChoiceDescriptor list"

text \<open>
  The test \<^verbatim>\<open>c.targetExistingNodeId && newStory.nodes[c.targetExistingNodeId]\<close> reads a
  property in a boolean context. A read follows the prototype chain, so on a plain object
  the property names of \<^verbatim>\<open>Object.prototype\<close> read as (truthy) inherited values, whether
  or not the object has a node under that key. A stored node is an object and is truthy.
\<close>

definition object_prototype_names :: "string list" where
  "object_prototype_names =
     [''constructor'', ''__defineGetter__'', ''__defineSetter__'', ''hasOwnProperty'',
      ''__lookupGetter__'', ''__lookupSetter__'', ''isPrototypeOf'', ''propertyIsEnumerable'',
      ''toString'', ''valueOf'', ''__proto__'', ''toLocaleString'']"

definition prop_truthy :: "'v jsobject \<Rightarrow> string \<Rightarrow> bool" where
  "prop_truthy obj k \<longleftrightarrow> prop_get obj k \<noteq> None \<or> k \<in> set object_prototype_names"

definition linksExisting :: "StoryNode jsobject \<Rightarrow> ChoiceDescriptor \<Rightarrow> bool" where
  "linksExisting ns c \<longleftrightarrow>
     (case targetExistingNodeId c of
        None \<Rightarrow> False
      | Some t \<Rightarrow> t \<noteq> [] \<and> prop_truthy ns t)"

text \<open>
  The callback of \<^verbatim>\<open>result.choices.map((c, idx) => ...)\<close>. It reads the clock once
  when it links and twice when it mints; \<open>(t1, t2)\<close> are the readings of the call for
  this index, \<open>t2\<close> unused in the first case. The callback writes minted nodes into
  \<^verbatim>\<open>newStory.nodes\<close> as it goes, so the object is threaded through the loop.
\<close>

definition aiId :: "string \<Rightarrow> nat \<Rightarrow> nat \<Rightarrow> string" where
  "aiId kind t idx = ''ai-'' @ kind @ ''-'' @ digits t @ ''-'' @ digits idx"

definition orDefault :: "string option \<Rightarrow> string \<Rightarrow> string" where
  "orDefault s d = (case s of None \<Rightarrow> d | Some v \<Rightarrow> if v = [] then d else v)"

definition mintedNode :: "string \<Rightarrow> ChoiceDescriptor \<Rightarrow> StoryNode" where
  "mintedNode newId c =
     \<lparr>node_id = newId, title = ''The Path of '' @ descriptor_text c,
      content = orDefault (nodeDescription c) ''The story unfolds...'',
      choices = [], isAiGenerated = Some True, imageUrl = None\<rparr>"

definition expandChoice ::
  "nat \<times> nat \<Rightarrow> nat \<Rightarrow> StoryNode jsobject \<Rightarrow> ChoiceDescriptor \<Rightarrow> Choice \<times> StoryNode jsobject" where
  "expandChoice now idx ns c =
     (if linksExisting ns c
      then (\<lparr>choice_id = aiId ''link'' (fst now) idx, choice_text = descriptor_text c,
             targetNodeId = the (targetExistingNodeId c)\<rparr>, ns)
      else (let newId = aiId ''node'' (fst now) idx
            in (\<lparr>choice_id = aiId ''choice'' (snd now) idx, choice_text = descriptor_text c,
                 targetNodeId = newId\<rparr>,
                prop_set ns newId (mintedNode newId c))))"

fun mapChoices ::
  "(nat \<Rightarrow> nat \<times> nat) \<Rightarrow> nat \<Rightarrow> StoryNode jsobject \<Rightarrow> ChoiceDescriptor list
     \<Rightarrow> Choice list \<times> StoryNode jsobject" where
  "mapChoices clock idx ns [] = ([], ns)"
| "mapChoices clock idx ns (c # cs) =
     (case expandChoice (clock idx) idx ns c of
        (choice, ns1) \<Rightarrow>
          (case mapChoices clock (Suc idx) ns1 cs of
             (rest, ns2) \<Rightarrow> (choice # rest, ns2)))"

text \<open>
  The statements after the \<^verbatim>\<open>await\<close>: build the choices, store the acted-on node,
  hand the document over. \<open>currentNode\<close> and \<open>currentNodeId\<close> are the values the
  handler's closure captured when it was created; \<open>story\<close> is the captured document
  with its \<^verbatim>\<open>nodes\<close> object as it is when the promise resolves.
\<close>

definition mergeAiResult ::
  "Story \<Rightarrow> string \<Rightarrow> StoryNode \<Rightarrow> Expansion \<Rightarrow> (nat \<Rightarrow> nat \<times> nat) \<Rightarrow> Story" where
  "mergeAiResult story nodeId currentNode result clock =
     (case mapChoices clock 0 (nodes story) (expansion_choices result) of
        (newChoices, ns) \<Rightarrow>
          story\<lparr>nodes := prop_set ns nodeId
            (currentNode\<lparr>content := orDefault (nodeContent result) (content currentNode),
                          choices := newChoices\<rparr>)\<rparr>)"

text \<open>
  \<^verbatim>\<open>handleAiGeneration\<close> as a whole. The component renders nothing, and so offers no
  button, unless \<^verbatim>\<open>story.nodes[currentNodeId]\<close> is defined. \<open>storyHistory\<close> throws
  (and the \<^verbatim>\<open>catch\<close> reports it) when the history names a missing node. Every
  handler that copies the document with \<^verbatim>\<open>{ ...story }\<close> shares the one
  \<^verbatim>\<open>nodes\<close> object and writes into it, so what other handlers do while the request
  is in flight shows in \<^verbatim>\<open>story.nodes\<close> after the \<^verbatim>\<open>await\<close>: \<open>inFlight\<close> is that
  change. \<open>generated\<close> is the outcome of \<^verbatim>\<open>generateNextSteps\<close>, \<open>None\<close> a rejected
  promise.
\<close>

datatype ai_report = NotRendered | NoApiKey | EnergiesFailed | PathForged

fun storyHistory :: "Story \<Rightarrow> string list \<Rightarrow> (string \<times> string \<times> string) list option" where
  "storyHistory story [] = Some []"
| "storyHistory story (ident # rest) =
     (case prop_get (nodes story) ident of
        None \<Rightarrow> None
      | Some node \<Rightarrow>
          map_option (\<lambda>hs. (ident, title node, content node) # hs) (storyHistory story rest))"

definition handleAiGeneration ::
  "bool \<Rightarrow> Story \<Rightarrow> Session \<Rightarrow> (StoryNode jsobject \<Rightarrow> StoryNode jsobject) \<Rightarrow> Expansion option
     \<Rightarrow> (nat \<Rightarrow> nat \<times> nat) \<Rightarrow> ai_report \<times> Story" where
  "handleAiGeneration hasApiKey story sess inFlight generated clock =
     (case prop_get (nodes story) (currentNodeId sess) of
        None \<Rightarrow> (NotRendered, story)
      | Some currentNode \<Rightarrow>
          if \<not> hasApiKey then (NoApiKey, story)
          else (case storyHistory story (history sess) of
                  None \<Rightarrow> (EnergiesFailed, story)
                | Some h \<Rightarrow>
                    (let current = story\<lparr>nodes := inFlight (nodes story)\<rparr>
                     in (case generated of
                           None \<Rightarrow> (EnergiesFailed, current)
                         | Some result \<Rightarrow>
                             (PathForged,
                              mergeAiResult current (currentNodeId sess) currentNode result clock)))))"

subsection \<open>Committed mutations\<close>

text \<open>
  The mutations of the document that the editor and the player commit, each as the
  handler (or the draft operation followed by \<open>handleSaveNode\<close>) that performs it.
\<close>

datatype mutation =
    CreateNode nat
  | EditNode StoryNode
  | DeleteNode string bool
  | AddChoice StoryNode nat
  | RemoveChoice StoryNode nat
  | MergeAiExpansion string StoryNode Expansion "nat \<Rightarrow> nat \<times> nat"

fun commit :: "Story \<Rightarrow> mutation \<Rightarrow> Story" where
  "commit story (CreateNode now) = handleAddNode story now"
| "commit story (EditNode editNode) = handleSaveNode story (Some editNode)"
| "commit story (DeleteNode ident confirmed) = snd (handleDeleteNode story ident confirmed)"
| "commit story (AddChoice editNode now) =
     handleSaveNode story (handleAddChoice story (Some editNode) now)"
| "commit story (RemoveChoice editNode idx) = handleSaveNode story (Some (removeChoice editNode idx))"
| "commit story (MergeAiExpansion nodeId currentNode result clock) =
     mergeAiResult story nodeId currentNode result clock"

subsection \<open>The editor's memoised set\<close>

text \<open>
  \<^verbatim>\<open>useMemo(..., [story.nodes])\<close> runs its callback on the first render of the component
  and afterwards only on a render whose \<^verbatim>\<open>story.nodes\<close> is another object than at the
  render before; otherwise it returns the \<^verbatim>\<open>Set\<close> it has. The state of the mounted
  editor is therefore the \<^verbatim>\<open>story\<close> it was last rendered with and the memoised
  \<^verbatim>\<open>linkedNodeIds\<close>. \<open>renderEditor\<close> is a re-render; its last argument says whether
  \<^verbatim>\<open>story.nodes\<close> is a new object. Every committed mutation copies the document with
  \<^verbatim>\<open>{ ...story }\<close> and writes into the \<^verbatim>\<open>nodes\<close> object the copy shares
  (\<open>editorCommit\<close>); an accepted import hands over a freshly parsed document
  (\<open>editorImport\<close>). \<^verbatim>\<open>isOrphan\<close> (line 342) is computed, for each node the sidebar
  lists, from the current \<^verbatim>\<open>story.startNodeId\<close> and the memoised set. The list,
  \<^verbatim>\<open>filteredNodes\<close>, is memoised on \<^verbatim>\<open>story.nodes\<close> as well (and on the search term), so
  with an unchanged search term it holds the nodes stored at mount; \<open>isOrphan\<close> is stated
  for any node, and the statements about a mounted editor apply it to nodes stored at
  mount.
\<close>

record StoryEditor =
  editor_story :: Story
  linkedNodeIds :: "string set"

definition mountEditor :: "Story \<Rightarrow> StoryEditor" where
  "mountEditor story =
     \<lparr>editor_story = story, linkedNodeIds = collectLinkedNodeIds (nodes story)\<rparr>"

definition renderEditor :: "StoryEditor \<Rightarrow> Story \<Rightarrow> bool \<Rightarrow> StoryEditor" where
  "renderEditor ed story nodesReplaced =
     \<lparr>editor_story = story,
      linkedNodeIds =
        (if nodesReplaced then collectLinkedNodeIds (nodes story) else linkedNodeIds ed)\<rparr>"

definition editorCommit :: "StoryEditor \<Rightarrow> mutation \<Rightarrow> StoryEditor" where
  "editorCommit ed m = renderEditor ed (commit (editor_story ed) m) False"

definition editorImport :: "StoryEditor \<Rightarrow> file_input \<Rightarrow> StoryEditor" where
  "editorImport ed file =
     (case StoryEditor_handleImportFile (editor_story ed) file of
        (SagaIntegrated, imported) \<Rightarrow> renderEditor ed imported True
      | (_, unchanged) \<Rightarrow> ed)"

definition isOrphan :: "StoryEditor \<Rightarrow> StoryNode \<Rightarrow> bool" where
  "isOrphan ed node \<longleftrightarrow>
     node_id node \<noteq> startNodeId (editor_story ed) \<and> node_id node \<notin> linkedNodeIds ed"

subsection \<open>Reachability\<close>

text \<open>
  The ids a player can arrive at: the start node, and the target of any choice of a
  stored node that can be arrived at.
\<close>

inductive reachable :: "Story \<Rightarrow> string \<Rightarrow> bool" for story :: Story where
  reachable_start: "reachable story (startNodeId story)"
| reachable_choice:
    "reachable story a \<Longrightarrow> prop_get (nodes story) a = Some node \<Longrightarrow> choice \<in> set (choices node)
       \<Longrightarrow> reachable story (targetNodeId choice)"

code_pred reachable .

subsection \<open>Example documents\<close>

text \<open>
  \<open>chain_story\<close> is the document \<open>A \<rightarrow> B \<rightarrow> C\<close> with the additional edge \<open>A \<rightarrow> C\<close>.
  In \<open>orphan_story\<close> the only choice targets \<open>X\<close>; \<open>lonely_story\<close> and
  \<open>scattered_story\<close> have no choice at all, and \<open>new_path\<close> is the choice
  \<^verbatim>\<open>handleAddChoice\<close> creates at clock reading 5. In \<open>cluster_story\<close> no choice leaves
  the start node \<open>S\<close>, \<open>X\<close> and \<open>Y\<close> point at each other and \<open>Z\<close> at itself.
  \<open>cave_story\<close> is a start node with one choice to the leaf \<open>cave\<close>; \<open>cave_session\<close> is
  the player standing at that leaf, \<open>cave_deleted\<close> the editor deleting \<open>cave\<close> in the
  shared \<^verbatim>\<open>nodes\<close> object, and the two expansions are generator results. \<open>lost_import\<close>
  is a parsed file without \<^verbatim>\<open>startNodeId\<close>, and \<open>loaded\<close> an image resize that succeeds.
\<close>

definition scene :: "string \<Rightarrow> Choice list \<Rightarrow> StoryNode" where
  "scene ident cs =
     \<lparr>node_id = ident, title = ident, content = [], choices = cs,
      isAiGenerated = None, imageUrl = None\<rparr>"

definition edge :: "string \<Rightarrow> string \<Rightarrow> Choice" where
  "edge ident target = \<lparr>choice_id = ident, choice_text = ''Go'', targetNodeId = target\<rparr>"

definition chain_story :: Story where
  "chain_story =
     \<lparr>story_id = Some ''chain'', name = ''Chain'',
      nodes = [(''A'', scene ''A'' [edge ''ab'' ''B'', edge ''ac'' ''C'']),
               (''B'', scene ''B'' [edge ''bc'' ''C'']),
               (''C'', scene ''C'' [])],
      startNodeId = ''A'', imageStyle = None\<rparr>"

definition orphan_story :: Story where
  "orphan_story =
     \<lparr>story_id = Some ''orphan'', name = ''Orphan'',
      nodes = [(''S'', scene ''S'' [edge ''sx'' ''X'']), (''X'', scene ''X'' [])],
      startNodeId = ''S'', imageStyle = None\<rparr>"

definition lonely_story :: Story where
  "lonely_story =
     \<lparr>story_id = Some ''lonely'', name = ''Lonely'',
      nodes = [(''S'', scene ''S'' []), (''X'', scene ''X'' [])],
      startNodeId = ''S'', imageStyle = None\<rparr>"

definition new_path :: "string \<Rightarrow> Choice" where
  "new_path target = \<lparr>choice_id = ''choice-5'', choice_text = ''New Path'', targetNodeId = target\<rparr>"

definition scattered_story :: Story where
  "scattered_story =
     \<lparr>story_id = Some ''scattered'', name = ''Scattered'',
      nodes = [(''S'', scene ''S'' []), (''X'', scene ''X'' []), (''Y'', scene ''Y'' [])],
      startNodeId = ''S'', imageStyle = None\<rparr>"

definition cluster_story :: Story where
  "cluster_story =
     \<lparr>story_id = Some ''cluster'', name = ''Cluster'',
      nodes = [(''S'', scene ''S'' []),
               (''X'', scene ''X'' [edge ''xy'' ''Y'']),
               (''Y'', scene ''Y'' [edge ''yx'' ''X'']),
               (''Z'', scene ''Z'' [edge ''zz'' ''Z''])],
      startNodeId = ''S'', imageStyle = None\<rparr>"

definition cave_story :: Story where
  "cave_story =
     \<lparr>story_id = Some ''cave'', name = ''Cave'',
      nodes = [(''start'', scene ''start'' [edge ''c1'' ''cave'']), (''cave'', scene ''cave'' [])],
      startNodeId = ''start'', imageStyle = None\<rparr>"

definition cave_session :: Session where
  "cave_session = \<lparr>currentNodeId = ''cave'', history = [''start'', ''cave'']\<rparr>"

definition cave_deleted :: "StoryNode jsobject \<Rightarrow> StoryNode jsobject" where
  "cave_deleted ns = nodes (snd (handleDeleteNode (cave_story\<lparr>nodes := ns\<rparr>) ''cave'' True))"

definition cave_expansion :: Expansion where
  "cave_expansion =
     \<lparr>nodeContent = Some ''A light ahead.'',
      expansion_choices =
        [\<lparr>descriptor_text = ''Go on'', nodeDescription = None, targetExistingNodeId = None\<rparr>,
         \<lparr>descriptor_text = ''Turn back'', nodeDescription = None,
          targetExistingNodeId = Some ''start''\<rparr>]\<rparr>"

definition fixed_clock :: "nat \<Rightarrow> nat \<times> nat" where
  "fixed_clock idx = (1000, 1000)"

definition silent_expansion :: Expansion where
  "silent_expansion =
     \<lparr>nodeContent = None,
      expansion_choices =
        [\<lparr>descriptor_text = ''Go on'', nodeDescription = None, targetExistingNodeId = None\<rparr>]\<rparr>"

definition lost_import :: RawStory where
  "lost_import =
     \<lparr>raw_id = Some ''lost'', raw_name = Some ''Lost'',
      raw_nodes = Some [(''A'', scene ''A'' [])], raw_startNodeId = None, raw_imageStyle = None\<rparr>"

definition loaded :: "string \<Rightarrow> string option" where
  "loaded url = Some url"

subsection \<open>Properties of the object operations\<close>

lemma prop_get_set: "prop_get (prop_set obj k v) k' = (if k' = k then Some v else prop_get obj k')"
  by (induction obj) auto

lemma keys_prop_set:
  "object_keys (prop_set obj k v) =
     (if k \<in> set (object_keys obj) then object_keys obj else object_keys obj @ [k])"
  by (induction obj) (force simp: object_keys_def)+

lemma prop_get_None_iff: "prop_get obj k = None \<longleftrightarrow> k \<notin> set (object_keys obj)"
  by (induction obj) (force simp: object_keys_def)+

lemma prop_get_delete:
  "prop_get (prop_delete obj k) k' = (if k' = k then None else prop_get obj k')"
  by (induction obj) (auto simp: prop_delete_def)

lemma keys_prop_delete: "object_keys (prop_delete obj k) = removeAll k (object_keys obj)"
  by (induction obj) (auto simp: prop_delete_def object_keys_def)

lemma pruneChoices_idem: "pruneChoices ident (pruneChoices ident node) = pruneChoices ident node"
  by (simp add: pruneChoices_def)

lemma prop_get_pruneKey:
  "prop_get (pruneKey ident a ns) k =
     (if k = a then map_option (pruneChoices ident) (prop_get ns a) else prop_get ns k)"
  by (auto simp: pruneKey_def prop_get_set split: option.splits)

lemma keys_pruneKey: "object_keys (pruneKey ident a ns) = object_keys ns"
  by (auto simp: pruneKey_def keys_prop_set prop_get_None_iff[symmetric] split: option.splits)

lemma prop_get_fold_pruneKey:
  "prop_get (fold (pruneKey ident) ks ns) k =
     (if k \<in> set ks then map_option (pruneChoices ident) (prop_get ns k) else prop_get ns k)"
proof (induction ks arbitrary: ns)
  case Nil
  show ?case by simp
next
  case (Cons a ks)
  show ?case
    by (simp add: Cons.IH prop_get_pruneKey option.map_comp comp_def pruneChoices_idem)
qed

lemma keys_fold_pruneKey: "object_keys (fold (pruneKey ident) ks ns) = object_keys ns"
  by (induction ks arbitrary: ns) (simp_all add: keys_pruneKey)

lemma prop_get_prune_all:
  "prop_get (fold (pruneKey ident) (object_keys ns) ns) k = map_option (pruneChoices ident) (prop_get ns k)"
proof (cases "k \<in> set (object_keys ns)")
  case True
  then show ?thesis by (simp add: prop_get_fold_pruneKey)
next
  case False
  then have "prop_get ns k = None" by (simp add: prop_get_None_iff)
  with False show ?thesis by (simp add: prop_get_fold_pruneKey)
qed

lemma fold_insert_targets:
  "fold (\<lambda>choice ids. insert (targetNodeId choice) ids) cs ids = targetNodeId ` set cs \<union> ids"
  by (induction cs arbitrary: ids) auto

lemma fold_linked:
  "fold (\<lambda>node ids. fold (\<lambda>choice ids. insert (targetNodeId choice) ids) (choices node) ids) ns ids
     = (\<Union>node \<in> set ns. targetNodeId ` set (choices node)) \<union> ids"
  by (induction ns arbitrary: ids) (auto simp: fold_insert_targets)

lemma collectLinkedNodeIds_eq:
  "collectLinkedNodeIds ns = (\<Union>node \<in> set (object_values ns). targetNodeId ` set (choices node))"
  by (simp add: collectLinkedNodeIds_def fold_linked)

lemma delete_result:
  "ident \<noteq> startNodeId story \<Longrightarrow>
   handleDeleteNode story ident True =
     (SceneErased, story\<lparr>nodes := fold (pruneKey ident) (object_keys (prop_delete (nodes story) ident))
                                     (prop_delete (nodes story) ident)\<rparr>)"
  by (simp add: handleDeleteNode_def Let_def)

subsection \<open>Deleting a node\<close>

text \<open>
  C3. Deleting a node \<open>ident\<close> other than the start node removes the key \<open>ident\<close>, keeps
  every other key in place, and leaves under every other key the node that was there
  with exactly the choices whose \<^verbatim>\<open>targetNodeId\<close> is \<open>ident\<close> filtered out, the others
  in their order. In \<open>chain_story\<close>, deleting \<open>B\<close> leaves \<open>A\<close> with the one choice to \<open>C\<close>,
  and \<open>C\<close> is not an orphan afterwards.
\<close>

theorem C3_delete_cascades:
  assumes "ident \<noteq> startNodeId story"
  shows "fst (handleDeleteNode story ident True) = SceneErased
     \<and> prop_get (nodes (snd (handleDeleteNode story ident True))) ident = None
     \<and> object_keys (nodes (snd (handleDeleteNode story ident True)))
         = removeAll ident (object_keys (nodes story))
     \<and> (\<forall>k. k \<noteq> ident \<longrightarrow>
          prop_get (nodes (snd (handleDeleteNode story ident True))) k
            = map_option (\<lambda>node. node\<lparr>choices := filter (\<lambda>c. targetNodeId c \<noteq> ident) (choices node)\<rparr>)
                (prop_get (nodes story) k))"
proof -
  define ns where "ns = prop_delete (nodes story) ident"
  have res: "handleDeleteNode story ident True
               = (SceneErased, story\<lparr>nodes := fold (pruneKey ident) (object_keys ns) ns\<rparr>)"
    using assms by (simp add: delete_result ns_def)
  have gone: "prop_get (fold (pruneKey ident) (object_keys ns) ns) ident = None"
    by (simp add: prop_get_prune_all ns_def prop_get_delete)
  have keys: "object_keys (fold (pruneKey ident) (object_keys ns) ns)
                = removeAll ident (object_keys (nodes story))"
    by (simp add: keys_fold_pruneKey ns_def keys_prop_delete)
  have rest: "prop_get (fold (pruneKey ident) (object_keys ns) ns) k
                = map_option (\<lambda>node. node\<lparr>choices := filter (\<lambda>c. targetNodeId c \<noteq> ident) (choices node)\<rparr>)
                    (prop_get (nodes story) k)" if "k \<noteq> ident" for k
  proof -
    have "pruneChoices ident
            = (\<lambda>node. node\<lparr>choices := filter (\<lambda>c. targetNodeId c \<noteq> ident) (choices node)\<rparr>)"
      by (rule ext) (simp add: pruneChoices_def)
    with that show ?thesis
      by (simp add: prop_get_prune_all ns_def prop_get_delete)
  qed
  show ?thesis
    by (simp add: res gone keys rest)
qed

theorem C3_delete_cascades_witness:
  "''B'' \<noteq> startNodeId chain_story
   \<and> object_keys (nodes (snd (handleDeleteNode chain_story ''B'' True))) = [''A'', ''C'']
   \<and> map_option choices (prop_get (nodes (snd (handleDeleteNode chain_story ''B'' True))) ''A'')
        = Some [edge ''ac'' ''C'']"
  using C3_delete_cascades [of "''B''" chain_story]
  by (simp add: chain_story_def scene_def edge_def object_keys_def)

lemma chain_story_after_delete:
  "snd (handleDeleteNode chain_story ''B'' True)
     = chain_story\<lparr>nodes := [(''A'', scene ''A'' [edge ''ac'' ''C'']), (''C'', scene ''C'' [])]\<rparr>"
  by (simp add: handleDeleteNode_def chain_story_def scene_def edge_def object_keys_def
        prop_delete_def pruneKey_def pruneChoices_def)

lemma chain_story_C_not_orphan:
  "\<not> isOrphan (editorCommit (mountEditor chain_story) (DeleteNode ''B'' True)) (scene ''C'' [])
   \<and> \<not> isOrphan (mountEditor (snd (handleDeleteNode chain_story ''B'' True))) (scene ''C'' [])"
proof -
  have "\<not> isOrphan (mountEditor (snd (handleDeleteNode chain_story ''B'' True))) (scene ''C'' [])"
    by (subst chain_story_after_delete)
       (simp add: isOrphan_def mountEditor_def collectLinkedNodeIds_def object_values_def
          scene_def edge_def chain_story_def)
  moreover
  have "\<not> isOrphan (editorCommit (mountEditor chain_story) (DeleteNode ''B'' True)) (scene ''C'' [])"
    by (simp add: isOrphan_def editorCommit_def renderEditor_def mountEditor_def
          collectLinkedNodeIds_def object_values_def scene_def edge_def chain_story_def)
  ultimately show ?thesis by simp
qed

subsection \<open>The expansion loop\<close>

lemma keys_expandChoice:
  "set (object_keys ns) \<subseteq> set (object_keys (snd (expandChoice now idx ns c)))"
  by (auto simp: expandChoice_def Let_def keys_prop_set)

lemma keys_mapChoices:
  "set (object_keys ns) \<subseteq> set (object_keys (snd (mapChoices clock idx ns cs)))"
proof (induction cs arbitrary: idx ns)
  case Nil
  show ?case by simp
next
  case (Cons c cs)
  obtain choice ns1 where e: "expandChoice (clock idx) idx ns c = (choice, ns1)"
    by (cases "expandChoice (clock idx) idx ns c")
  obtain rest ns2 where m: "mapChoices clock (Suc idx) ns1 cs = (rest, ns2)"
    by (cases "mapChoices clock (Suc idx) ns1 cs")
  have "set (object_keys ns) \<subseteq> set (object_keys ns1)"
    using keys_expandChoice [of ns "clock idx" idx c] by (simp add: e)
  moreover have "set (object_keys ns1) \<subseteq> set (object_keys ns2)"
    using Cons.IH [of ns1 "Suc idx"] by (simp add: m)
  ultimately show ?case by (auto simp: e m)
qed

lemma text_expandChoice: "choice_text (fst (expandChoice now idx ns c)) = descriptor_text c"
  by (simp add: expandChoice_def Let_def)

lemma texts_mapChoices:
  "map choice_text (fst (mapChoices clock idx ns cs)) = map descriptor_text cs"
proof (induction cs arbitrary: idx ns)
  case Nil
  show ?case by simp
next
  case (Cons c cs)
  show ?case
    using Cons.IH text_expandChoice [of "clock idx" idx ns c]
    by (simp split: prod.splits) (metis fst_conv)
qed

lemma length_mapChoices: "length (fst (mapChoices clock idx ns cs)) = length cs"
  using texts_mapChoices [of clock idx ns cs] by (metis length_map)

lemma mapChoices_append:
  "mapChoices clock idx ns (xs @ ys) =
     (case mapChoices clock idx ns xs of
        (a, ns1) \<Rightarrow> (case mapChoices clock (idx + length xs) ns1 ys of
                       (b, ns2) \<Rightarrow> (a @ b, ns2)))"
  by (induction xs arbitrary: idx ns) (auto split: prod.splits)

lemma keys_mergeAiResult:
  "set (object_keys (nodes (mergeAiResult story nodeId currentNode result clock)))
     = insert nodeId (set (object_keys (snd (mapChoices clock 0 (nodes story) (expansion_choices result)))))"
  by (auto simp: mergeAiResult_def keys_prop_set split: prod.splits)

lemma keys_mergeAiResult_mono:
  "set (object_keys (nodes story))
     \<subseteq> set (object_keys (nodes (mergeAiResult story nodeId currentNode result clock)))"
  using keys_mapChoices [of "nodes story" clock 0 "expansion_choices result"]
  by (auto simp: keys_mergeAiResult)

lemma start_mergeAiResult:
  "startNodeId (mergeAiResult story nodeId currentNode result clock) = startNodeId story"
  by (simp add: mergeAiResult_def split: prod.splits)

lemma node_mergeAiResult:
  "prop_get (nodes (mergeAiResult story nodeId currentNode result clock)) nodeId
     = Some (currentNode\<lparr>content := orDefault (nodeContent result) (content currentNode),
                          choices := fst (mapChoices clock 0 (nodes story) (expansion_choices result))\<rparr>)"
  by (simp add: mergeAiResult_def prop_get_set split: prod.splits)

subsection \<open>The start node\<close>

lemma commit_keeps_start:
  assumes "startNodeId story \<in> set (object_keys (nodes story))"
  shows "startNodeId (commit story m) = startNodeId story
         \<and> startNodeId story \<in> set (object_keys (nodes (commit story m)))"
proof (cases m)
  case (CreateNode now)
  with assms show ?thesis by (simp add: handleAddNode_def Let_def keys_prop_set)
next
  case (EditNode e)
  with assms show ?thesis by (simp add: handleSaveNode_def keys_prop_set)
next
  case (DeleteNode ident confirmed)
  with assms show ?thesis
    by (simp add: handleDeleteNode_def Let_def keys_fold_pruneKey keys_prop_delete)
next
  case (AddChoice e now)
  with assms show ?thesis
    by (simp add: handleSaveNode_def handleAddChoice_def keys_prop_set)
next
  case (RemoveChoice e idx)
  with assms show ?thesis by (simp add: handleSaveNode_def keys_prop_set)
next
  case (MergeAiExpansion nodeId currentNode result clock)
  with assms keys_mergeAiResult_mono [of story nodeId currentNode result clock]
  show ?thesis by (auto simp: start_mergeAiResult)
qed

lemma commits_keep_start:
  "startNodeId story \<in> set (object_keys (nodes story)) \<Longrightarrow>
   startNodeId (fold (\<lambda>m s. commit s m) ms story) = startNodeId story
   \<and> startNodeId story \<in> set (object_keys (nodes (fold (\<lambda>m s. commit s m) ms story)))"
proof (induction ms arbitrary: story)
  case Nil
  then show ?case by simp
next
  case (Cons m ms)
  from commit_keeps_start [OF Cons.prems, of m]
  have "startNodeId (commit story m) = startNodeId story"
    "startNodeId (commit story m) \<in> set (object_keys (nodes (commit story m)))" by simp_all
  with Cons.IH [of "commit story m"] show ?case by simp
qed

text \<open>
  C2. Deleting the node whose id is \<^verbatim>\<open>startNodeId\<close> is refused and returns the document
  as it was, whatever the answer to the dialog. So a document whose \<^verbatim>\<open>startNodeId\<close> is
  a key of \<^verbatim>\<open>nodes\<close> keeps its \<^verbatim>\<open>startNodeId\<close>, and keeps it a key, through every
  committed mutation: creating, editing and deleting a node, adding and removing a
  choice, merging an expansion.
\<close>

theorem C2_start_node_permanence:
  "handleDeleteNode story (startNodeId story) confirmed = (OriginCannotBeUnmade, story)
   \<and> (startNodeId story \<in> set (object_keys (nodes story)) \<longrightarrow>
        startNodeId (commit story m) = startNodeId story
        \<and> startNodeId (commit story m) \<in> set (object_keys (nodes (commit story m))))"
  using commit_keeps_start [of story m] by (simp add: handleDeleteNode_def)

theorem C2_start_node_permanence_witness:
  "startNodeId chain_story \<in> set (object_keys (nodes chain_story))
   \<and> handleDeleteNode chain_story ''A'' True = (OriginCannotBeUnmade, chain_story)
   \<and> startNodeId (commit chain_story (DeleteNode ''B'' True)) = ''A''
   \<and> ''A'' \<in> set (object_keys (nodes (commit chain_story (DeleteNode ''B'' True))))"
proof -
  have start: "startNodeId chain_story = ''A''" by (simp add: chain_story_def)
  have present: "startNodeId chain_story \<in> set (object_keys (nodes chain_story))"
    by (simp add: chain_story_def object_keys_def)
  from C2_start_node_permanence [of chain_story True "DeleteNode ''B'' True"] present
  have "handleDeleteNode chain_story (startNodeId chain_story) True = (OriginCannotBeUnmade, chain_story)"
    and "startNodeId (commit chain_story (DeleteNode ''B'' True)) = startNodeId chain_story"
    and "startNodeId (commit chain_story (DeleteNode ''B'' True))
           \<in> set (object_keys (nodes (commit chain_story (DeleteNode ''B'' True))))"
    by blast+
  with present show ?thesis by (simp only: start)
qed

subsection \<open>The expansion loop, one descriptor at a time\<close>

lemma mapChoices_snoc:
  "mapChoices clock 0 ns (xs @ [c]) =
     (fst (mapChoices clock 0 ns xs)
        @ [fst (expandChoice (clock (length xs)) (length xs) (snd (mapChoices clock 0 ns xs)) c)],
      snd (expandChoice (clock (length xs)) (length xs) (snd (mapChoices clock 0 ns xs)) c))"
  by (simp add: mapChoices_append split: prod.splits)

lemma mapChoices_step:
  assumes "i < length cs"
  shows "fst (mapChoices clock 0 ns cs) ! i
           = fst (expandChoice (clock i) i (snd (mapChoices clock 0 ns (take i cs))) (cs ! i))"
    and "snd (mapChoices clock 0 ns (take (Suc i) cs))
           = snd (expandChoice (clock i) i (snd (mapChoices clock 0 ns (take i cs))) (cs ! i))"
    and "set (object_keys (snd (mapChoices clock 0 ns (take (Suc i) cs))))
           \<subseteq> set (object_keys (snd (mapChoices clock 0 ns cs)))"
proof -
  have len: "length (take i cs) = i" using assms by simp
  have tk: "take (Suc i) cs = take i cs @ [cs ! i]"
    using assms by (simp add: take_Suc_conv_app_nth)
  have split: "cs = take (Suc i) cs @ drop (Suc i) cs" by simp
  show snd_eq: "snd (mapChoices clock 0 ns (take (Suc i) cs))
           = snd (expandChoice (clock i) i (snd (mapChoices clock 0 ns (take i cs))) (cs ! i))"
    by (simp only: tk mapChoices_snoc len snd_conv)
  have lt: "length (take (Suc i) cs) = Suc i" using assms by simp
  have whole: "mapChoices clock 0 ns cs =
      (case mapChoices clock 0 ns (take (Suc i) cs) of
        (a, ns1) \<Rightarrow> (case mapChoices clock (Suc i) ns1 (drop (Suc i) cs) of
                       (b, ns2) \<Rightarrow> (a @ b, ns2)))"
    using mapChoices_append [of clock 0 ns "take (Suc i) cs" "drop (Suc i) cs"]
    by (simp only: lt append_take_drop_id add_0)
  obtain a ns1 where a: "mapChoices clock 0 ns (take (Suc i) cs) = (a, ns1)"
    by (cases "mapChoices clock 0 ns (take (Suc i) cs)")
  obtain b ns2 where b: "mapChoices clock (Suc i) ns1 (drop (Suc i) cs) = (b, ns2)"
    by (cases "mapChoices clock (Suc i) ns1 (drop (Suc i) cs)")
  have res: "mapChoices clock 0 ns cs = (a @ b, ns2)" by (simp only: whole a b prod.case)
  have la: "length a = Suc i"
    using length_mapChoices [of clock 0 ns "take (Suc i) cs"] assms by (simp add: a)
  have "a = fst (mapChoices clock 0 ns (take i cs))
            @ [fst (expandChoice (clock i) i (snd (mapChoices clock 0 ns (take i cs))) (cs ! i))]"
    using a by (simp only: tk mapChoices_snoc len) simp
  moreover have "length (fst (mapChoices clock 0 ns (take i cs))) = i"
    using len by (simp only: length_mapChoices)
  ultimately have "a ! i = fst (expandChoice (clock i) i (snd (mapChoices clock 0 ns (take i cs))) (cs ! i))"
    by (metis nth_append_length)
  then show "fst (mapChoices clock 0 ns cs) ! i
           = fst (expandChoice (clock i) i (snd (mapChoices clock 0 ns (take i cs))) (cs ! i))"
    using la by (simp add: res nth_append)
  show "set (object_keys (snd (mapChoices clock 0 ns (take (Suc i) cs))))
           \<subseteq> set (object_keys (snd (mapChoices clock 0 ns cs)))"
    using keys_mapChoices [of ns1 clock "Suc i" "drop (Suc i) cs"]
    by (simp only: a b res snd_conv)
qed

lemma expandChoice_links:
  "targetExistingNodeId c = Some t \<Longrightarrow> t \<noteq> [] \<Longrightarrow> t \<in> set (object_keys ns) \<Longrightarrow>
   expandChoice now idx ns c
     = (\<lparr>choice_id = aiId ''link'' (fst now) idx, choice_text = descriptor_text c, targetNodeId = t\<rparr>, ns)"
  by (simp add: expandChoice_def linksExisting_def prop_truthy_def prop_get_None_iff)

lemma expandChoice_mints:
  "(case targetExistingNodeId c of
      None \<Rightarrow> True
    | Some t \<Rightarrow> t = [] \<or> (t \<notin> set (object_keys ns) \<and> t \<notin> set object_prototype_names)) \<Longrightarrow>
   expandChoice now idx ns c
     = (\<lparr>choice_id = aiId ''choice'' (snd now) idx, choice_text = descriptor_text c,
         targetNodeId = aiId ''node'' (fst now) idx\<rparr>,
        prop_set ns (aiId ''node'' (fst now) idx)
          \<lparr>node_id = aiId ''node'' (fst now) idx, title = ''The Path of '' @ descriptor_text c,
           content = orDefault (nodeDescription c) ''The story unfolds...'',
           choices = [], isAiGenerated = Some True, imageUrl = None\<rparr>)"
  by (auto simp: expandChoice_def linksExisting_def prop_truthy_def prop_get_None_iff Let_def
        mintedNode_def split: option.splits)

subsection \<open>Merging an expansion\<close>

lemma handleAiGeneration_merges:
  assumes "prop_get (nodes story) (currentNodeId sess) = Some currentNode"
    and "storyHistory story (history sess) \<noteq> None"
  shows "handleAiGeneration True story sess inFlight (Some result) clock
           = (PathForged,
              mergeAiResult (story\<lparr>nodes := inFlight (nodes story)\<rparr>) (currentNodeId sess)
                currentNode result clock)"
  using assms by (auto simp: handleAiGeneration_def Let_def)

text \<open>
  C1, as stated, fails. In \<open>cave_story\<close> the player stands at \<open>cave\<close> and asks for an
  expansion; while the request is in flight the editor deletes \<open>cave\<close>; when the promise
  resolves the handler reports success and \<open>cave\<close> is a key again.
\<close>

theorem C1_counterexample:
  "prop_get (nodes cave_story) ''cave'' = Some (scene ''cave'' [])
   \<and> prop_get (cave_deleted (nodes cave_story)) ''cave'' = None
   \<and> handleAiGeneration True cave_story cave_session cave_deleted (Some cave_expansion) fixed_clock
       = (PathForged,
          cave_story\<lparr>nodes :=
            [(''start'', scene ''start'' []),
             (''ai-node-1000-0'',
              \<lparr>node_id = ''ai-node-1000-0'', title = ''The Path of Go on'',
               content = ''The story unfolds...'', choices = [],
               isAiGenerated = Some True, imageUrl = None\<rparr>),
             (''cave'',
              \<lparr>node_id = ''cave'', title = ''cave'', content = ''A light ahead.'',
               choices =
                 [\<lparr>choice_id = ''ai-choice-1000-0'', choice_text = ''Go on'',
                   targetNodeId = ''ai-node-1000-0''\<rparr>,
                  \<lparr>choice_id = ''ai-link-1000-1'', choice_text = ''Turn back'',
                   targetNodeId = ''start''\<rparr>],
               isAiGenerated = None, imageUrl = None\<rparr>)]\<rparr>)"
  by (simp add: handleAiGeneration_def mergeAiResult_def expandChoice_def linksExisting_def
        prop_truthy_def mintedNode_def orDefault_def aiId_def digits.simps digit_char_def
        cave_story_def cave_session_def cave_deleted_def cave_expansion_def fixed_clock_def
        handleDeleteNode_def prop_delete_def object_keys_def pruneKey_def pruneChoices_def
        scene_def edge_def Let_def)

text \<open>
  C1, amended. The statements after the \<^verbatim>\<open>await\<close> test nothing about the acted-on node.
  When the node was stored at request time under an id other than \<^verbatim>\<open>__proto__\<close> and is no
  longer a key when the promise resolves, the handler reports success, and the document
  it hands over holds the key again: under it the node captured at request time, its
  content the result's (the captured one when the result has none) and its choices the
  list built from the result. (Under the id \<^verbatim>\<open>__proto__\<close> the assignment would set the
  prototype of \<^verbatim>\<open>nodes\<close> and create no key.)
\<close>

theorem C1_merge_recreates_deleted_node:
  assumes "prop_get (nodes story) (currentNodeId sess) = Some currentNode"
    and "storyHistory story (history sess) \<noteq> None"
    and "prop_get (inFlight (nodes story)) (currentNodeId sess) = None"
    and "currentNodeId sess \<noteq> ''__proto__''"
  shows "fst (handleAiGeneration True story sess inFlight (Some result) clock) = PathForged
     \<and> prop_get (nodes (snd (handleAiGeneration True story sess inFlight (Some result) clock)))
           (currentNodeId sess)
         = Some (currentNode
             \<lparr>content := orDefault (nodeContent result) (content currentNode),
              choices := fst (mapChoices clock 0 (inFlight (nodes story)) (expansion_choices result))\<rparr>)
     \<and> currentNodeId sess
           \<in> set (object_keys (nodes (snd (handleAiGeneration True story sess inFlight (Some result) clock))))"
proof -
  let ?merged = "mergeAiResult (story\<lparr>nodes := inFlight (nodes story)\<rparr>) (currentNodeId sess)
                   currentNode result clock"
  have run: "handleAiGeneration True story sess inFlight (Some result) clock = (PathForged, ?merged)"
    using assms(1,2) by (rule handleAiGeneration_merges)
  have node: "prop_get (nodes ?merged) (currentNodeId sess)
         = Some (currentNode
             \<lparr>content := orDefault (nodeContent result) (content currentNode),
              choices := fst (mapChoices clock 0 (inFlight (nodes story)) (expansion_choices result))\<rparr>)"
    using node_mergeAiResult [of "story\<lparr>nodes := inFlight (nodes story)\<rparr>"] by simp
  then have "prop_get (nodes ?merged) (currentNodeId sess) \<noteq> None" by simp
  then have "currentNodeId sess \<in> set (object_keys (nodes ?merged))"
    by (simp add: prop_get_None_iff)
  with node show ?thesis by (simp add: run)
qed

theorem C1_merge_recreates_deleted_node_witness:
  "prop_get (nodes cave_story) (currentNodeId cave_session) = Some (scene ''cave'' [])
   \<and> storyHistory cave_story (history cave_session) \<noteq> None
   \<and> prop_get (cave_deleted (nodes cave_story)) (currentNodeId cave_session) = None
   \<and> currentNodeId cave_session \<noteq> ''__proto__''
   \<and> fst (handleAiGeneration True cave_story cave_session cave_deleted (Some silent_expansion)
             fixed_clock) = PathForged
   \<and> ''cave'' \<in> set (object_keys (nodes (snd
         (handleAiGeneration True cave_story cave_session cave_deleted (Some silent_expansion)
            fixed_clock))))"
proof -
  have a: "prop_get (nodes cave_story) (currentNodeId cave_session) = Some (scene ''cave'' [])"
    by (simp add: cave_story_def cave_session_def)
  have b: "storyHistory cave_story (history cave_session) \<noteq> None"
    by (simp add: cave_story_def cave_session_def)
  have c: "prop_get (cave_deleted (nodes cave_story)) (currentNodeId cave_session) = None"
    by (simp add: cave_deleted_def cave_story_def cave_session_def handleDeleteNode_def
          prop_delete_def object_keys_def pruneKey_def pruneChoices_def scene_def edge_def Let_def)
  have d: "currentNodeId cave_session = ''cave''" by (simp add: cave_session_def)
  have e: "currentNodeId cave_session \<noteq> ''__proto__''" by (simp add: cave_session_def)
  from C1_merge_recreates_deleted_node
         [where story = cave_story and sess = cave_session and inFlight = cave_deleted
            and result = silent_expansion and clock = fixed_clock, OF a b c e] a b c e
  show ?thesis by (simp only: d) simp
qed

text \<open>
  C5, as stated, fails on the content of a minted node: a descriptor that carries no
  \<^verbatim>\<open>nodeDescription\<close> and names no target yields a node whose content is the literal
  \<^verbatim>\<open>"The story unfolds..."\<close>.
\<close>

theorem C5_counterexample:
  "expansion_choices silent_expansion
     = [\<lparr>descriptor_text = ''Go on'', nodeDescription = None, targetExistingNodeId = None\<rparr>]
   \<and> prop_get (nodes (mergeAiResult cave_story ''cave'' (scene ''cave'' []) silent_expansion fixed_clock))
        ''ai-node-1000-0''
      = Some \<lparr>node_id = ''ai-node-1000-0'', title = ''The Path of Go on'',
              content = ''The story unfolds...'', choices = [],
              isAiGenerated = Some True, imageUrl = None\<rparr>"
  by (simp add: mergeAiResult_def expandChoice_def linksExisting_def
        prop_truthy_def mintedNode_def orDefault_def aiId_def digits.simps digit_char_def
        cave_story_def silent_expansion_def fixed_clock_def scene_def edge_def Let_def)

text \<open>
  C5, amended. Let \<open>before\<close> and \<open>after\<close> be \<^verbatim>\<open>newStory.nodes\<close> just before and just
  after the callback runs on the \<open>i\<close>-th descriptor \<open>c\<close>, and \<open>built\<close> the choice list the
  merge stores for the acted-on node. \<open>built\<close> has one choice per descriptor. If \<open>c\<close> names
  a non-empty id that is a key of the document (or of \<open>before\<close>), the \<open>i\<close>-th choice is an
  \<^verbatim>\<open>ai-link\<close> choice with the descriptor's text targeting that id, and the callback writes
  no node. If \<open>c\<close> names no id, the empty id, or an id that reads as \<^verbatim>\<open>undefined\<close> in
  \<open>before\<close>, the callback makes exactly one write: under the id \<^verbatim>\<open>ai-node-<now>-<i>\<close> it
  stores a node with that id, the title \<^verbatim>\<open>The Path of <text>\<close>, the descriptor's
  \<^verbatim>\<open>nodeDescription\<close> as content when that is a non-empty string and
  \<^verbatim>\<open>The story unfolds...\<close> otherwise, no choices and \<^verbatim>\<open>isAiGenerated\<close> true; the
  \<open>i\<close>-th choice is an \<^verbatim>\<open>ai-choice\<close> choice targeting that id, and the id is a key of
  the merged document.
\<close>

theorem C5_expansion_convergence:
  assumes "i < length (expansion_choices result)"
  shows
    "(let cs = expansion_choices result; c = cs ! i;
          before = snd (mapChoices clock 0 (nodes story) (take i cs));
          after = snd (mapChoices clock 0 (nodes story) (take (Suc i) cs));
          merged = mergeAiResult story nodeId currentNode result clock;
          newId = aiId ''node'' (fst (clock i)) i
      in (\<exists>built. map_option choices (prop_get (nodes merged) nodeId) = Some built
            \<and> length built = length cs
            \<and> (\<forall>t. targetExistingNodeId c = Some t \<and> t \<noteq> []
                     \<and> (t \<in> set (object_keys (nodes story)) \<or> t \<in> set (object_keys before))
                  \<longrightarrow> built ! i = \<lparr>choice_id = aiId ''link'' (fst (clock i)) i,
                                    choice_text = descriptor_text c, targetNodeId = t\<rparr>
                      \<and> after = before)
            \<and> ((case targetExistingNodeId c of
                   None \<Rightarrow> True
                 | Some t \<Rightarrow> t = [] \<or> (t \<notin> set (object_keys before)
                                           \<and> t \<notin> set object_prototype_names))
                  \<longrightarrow> built ! i = \<lparr>choice_id = aiId ''choice'' (snd (clock i)) i,
                                    choice_text = descriptor_text c, targetNodeId = newId\<rparr>
                      \<and> after = prop_set before newId
                          \<lparr>node_id = newId, title = ''The Path of '' @ descriptor_text c,
                           content = orDefault (nodeDescription c) ''The story unfolds...'',
                           choices = [], isAiGenerated = Some True, imageUrl = None\<rparr>
                      \<and> newId \<in> set (object_keys (nodes merged)))))"
proof -
  define cs where "cs = expansion_choices result"
  define c where "c = cs ! i"
  define before where "before = snd (mapChoices clock 0 (nodes story) (take i cs))"
  define after where "after = snd (mapChoices clock 0 (nodes story) (take (Suc i) cs))"
  define merged where "merged = mergeAiResult story nodeId currentNode result clock"
  define newId where "newId = aiId ''node'' (fst (clock i)) i"
  define built where "built = fst (mapChoices clock 0 (nodes story) cs)"
  have i: "i < length cs" using assms by (simp add: cs_def)
  have stored: "map_option choices (prop_get (nodes merged) nodeId) = Some built"
    by (simp add: merged_def built_def cs_def node_mergeAiResult)
  have len: "length built = length cs" by (simp add: built_def length_mapChoices)
  have nth: "built ! i = fst (expandChoice (clock i) i before c)"
    unfolding built_def before_def c_def by (rule mapChoices_step(1) [OF i])
  have aft: "after = snd (expandChoice (clock i) i before c)"
    unfolding after_def before_def c_def by (rule mapChoices_step(2) [OF i])
  have grown: "set (object_keys (nodes story)) \<subseteq> set (object_keys before)"
    unfolding before_def by (rule keys_mapChoices)
  have final: "set (object_keys after) \<subseteq> set (object_keys (nodes merged))"
  proof -
    have "set (object_keys after) \<subseteq> set (object_keys (snd (mapChoices clock 0 (nodes story) cs)))"
      unfolding after_def by (rule mapChoices_step(3) [OF i])
    then show ?thesis
      by (auto simp: merged_def keys_mergeAiResult cs_def)
  qed
  have link: "built ! i = \<lparr>choice_id = aiId ''link'' (fst (clock i)) i,
                           choice_text = descriptor_text c, targetNodeId = t\<rparr>
              \<and> after = before"
    if "targetExistingNodeId c = Some t \<and> t \<noteq> []
          \<and> (t \<in> set (object_keys (nodes story)) \<or> t \<in> set (object_keys before))" for t
  proof -
    from that grown have "targetExistingNodeId c = Some t" "t \<noteq> []" "t \<in> set (object_keys before)"
      by auto
    then show ?thesis by (simp add: nth aft expandChoice_links)
  qed
  have mint: "built ! i = \<lparr>choice_id = aiId ''choice'' (snd (clock i)) i,
                           choice_text = descriptor_text c, targetNodeId = newId\<rparr>
              \<and> after = prop_set before newId
                  \<lparr>node_id = newId, title = ''The Path of '' @ descriptor_text c,
                   content = orDefault (nodeDescription c) ''The story unfolds...'',
                   choices = [], isAiGenerated = Some True, imageUrl = None\<rparr>
              \<and> newId \<in> set (object_keys (nodes merged))"
    if m: "case targetExistingNodeId c of
             None \<Rightarrow> True
           | Some t \<Rightarrow> t = [] \<or> (t \<notin> set (object_keys before) \<and> t \<notin> set object_prototype_names)"
  proof -
    note e = expandChoice_mints [OF m, of "clock i" i]
    have a: "after = prop_set before newId
                  \<lparr>node_id = newId, title = ''The Path of '' @ descriptor_text c,
                   content = orDefault (nodeDescription c) ''The story unfolds...'',
                   choices = [], isAiGenerated = Some True, imageUrl = None\<rparr>"
      by (simp add: aft e newId_def)
    then have "newId \<in> set (object_keys after)" by (simp add: keys_prop_set)
    with final have "newId \<in> set (object_keys (nodes merged))" by blast
    with a show ?thesis by (simp add: nth e newId_def)
  qed
  have "\<exists>built. map_option choices (prop_get (nodes merged) nodeId) = Some built
            \<and> length built = length cs
            \<and> (\<forall>t. targetExistingNodeId c = Some t \<and> t \<noteq> []
                     \<and> (t \<in> set (object_keys (nodes story)) \<or> t \<in> set (object_keys before))
                  \<longrightarrow> built ! i = \<lparr>choice_id = aiId ''link'' (fst (clock i)) i,
                                    choice_text = descriptor_text c, targetNodeId = t\<rparr>
                      \<and> after = before)
            \<and> ((case targetExistingNodeId c of
                   None \<Rightarrow> True
                 | Some t \<Rightarrow> t = [] \<or> (t \<notin> set (object_keys before)
                                           \<and> t \<notin> set object_prototype_names))
                  \<longrightarrow> built ! i = \<lparr>choice_id = aiId ''choice'' (snd (clock i)) i,
                                    choice_text = descriptor_text c, targetNodeId = newId\<rparr>
                      \<and> after = prop_set before newId
                          \<lparr>node_id = newId, title = ''The Path of '' @ descriptor_text c,
                           content = orDefault (nodeDescription c) ''The story unfolds...'',
                           choices = [], isAiGenerated = Some True, imageUrl = None\<rparr>
                      \<and> newId \<in> set (object_keys (nodes merged)))"
    using stored len link mint by blast
  then show ?thesis
    unfolding Let_def cs_def [symmetric] c_def [symmetric] before_def [symmetric]
      after_def [symmetric] merged_def [symmetric] newId_def [symmetric] .
qed

theorem C5_expansion_convergence_witness:
  "1 < length (expansion_choices cave_expansion)
   \<and> targetExistingNodeId (expansion_choices cave_expansion ! 0) = None
   \<and> targetExistingNodeId (expansion_choices cave_expansion ! 1) = Some ''start''
   \<and> ''start'' \<in> set (object_keys (nodes cave_story))
   \<and> (\<exists>built.
         map_option choices
           (prop_get (nodes (mergeAiResult cave_story ''cave'' (scene ''cave'' []) cave_expansion
              fixed_clock)) ''cave'') = Some built
         \<and> built ! 0 = \<lparr>choice_id = ''ai-choice-1000-0'', choice_text = ''Go on'',
                          targetNodeId = ''ai-node-1000-0''\<rparr>
         \<and> built ! 1 = \<lparr>choice_id = ''ai-link-1000-1'', choice_text = ''Turn back'',
                          targetNodeId = ''start''\<rparr>)
   \<and> ''ai-node-1000-0''
        \<in> set (object_keys (nodes (mergeAiResult cave_story ''cave'' (scene ''cave'' [])
              cave_expansion fixed_clock)))"
proof -
  let ?merged = "mergeAiResult cave_story ''cave'' (scene ''cave'' []) cave_expansion fixed_clock"
  have len: "0 < length (expansion_choices cave_expansion)"
    "1 < length (expansion_choices cave_expansion)"
    by (simp_all add: cave_expansion_def)
  have c0: "expansion_choices cave_expansion ! 0
      = \<lparr>descriptor_text = ''Go on'', nodeDescription = None, targetExistingNodeId = None\<rparr>"
    and c1: "expansion_choices cave_expansion ! 1
      = \<lparr>descriptor_text = ''Turn back'', nodeDescription = None,
         targetExistingNodeId = Some ''start''\<rparr>"
    by (simp_all add: cave_expansion_def)
  have present: "''start'' \<in> set (object_keys (nodes cave_story))"
    by (simp add: cave_story_def object_keys_def)
  have ids: "aiId ''node'' (fst (fixed_clock 0)) 0 = ''ai-node-1000-0''"
    "aiId ''choice'' (snd (fixed_clock 0)) 0 = ''ai-choice-1000-0''"
    "aiId ''link'' (fst (fixed_clock 1)) 1 = ''ai-link-1000-1''"
    by (simp_all add: aiId_def fixed_clock_def digits.simps digit_char_def)
  from C5_expansion_convergence [OF len(1), of fixed_clock cave_story "''cave''" "scene ''cave'' []"]
  obtain b0 where b0: "map_option choices (prop_get (nodes ?merged) ''cave'') = Some b0"
    and mint: "b0 ! 0 = \<lparr>choice_id = ''ai-choice-1000-0'', choice_text = ''Go on'',
                          targetNodeId = ''ai-node-1000-0''\<rparr>"
    and key: "''ai-node-1000-0'' \<in> set (object_keys (nodes ?merged))"
    unfolding Let_def c0 ids by auto
  from C5_expansion_convergence [OF len(2), of fixed_clock cave_story "''cave''" "scene ''cave'' []"]
  obtain b1 where b1: "map_option choices (prop_get (nodes ?merged) ''cave'') = Some b1"
    and link: "b1 ! 1 = \<lparr>choice_id = ''ai-link-1000-1'', choice_text = ''Turn back'',
                          targetNodeId = ''start''\<rparr>"
    unfolding Let_def c1 ids using present by auto
  from b0 b1 have "b0 = b1" by simp
  with b0 mint link key len c0 c1 present show ?thesis by auto
qed

text \<open>
  C6. A merge stores for the acted-on node exactly the list it builds from its result.
  After a merge of \<open>result1\<close> and then a merge of \<open>result2\<close> on the same node, the node's
  choices are the list built from \<open>result2\<close> on the document the first merge left: one
  choice per descriptor of \<open>result2\<close>, with its texts in order. Every key of the document
  after the first merge, so every node the first merge minted, is still a key.
\<close>

theorem C6_expansion_overwrites:
  "(let first = mergeAiResult story nodeId node1 result1 clock1;
        second = mergeAiResult first nodeId node2 result2 clock2;
        built2 = fst (mapChoices clock2 0 (nodes first) (expansion_choices result2))
    in map_option choices (prop_get (nodes second) nodeId) = Some built2
       \<and> length built2 = length (expansion_choices result2)
       \<and> map choice_text built2 = map descriptor_text (expansion_choices result2)
       \<and> set (object_keys (nodes first)) \<subseteq> set (object_keys (nodes second)))"
  by (simp add: Let_def node_mergeAiResult length_mapChoices texts_mapChoices
        keys_mergeAiResult_mono)

theorem C6_expansion_overwrites_witness:
  "map_option choices
     (prop_get
        (nodes (mergeAiResult
                  (mergeAiResult cave_story ''cave'' (scene ''cave'' []) cave_expansion fixed_clock)
                  ''cave'' (scene ''cave'' []) silent_expansion fixed_clock))
        ''cave'')
     = Some [\<lparr>choice_id = ''ai-choice-1000-0'', choice_text = ''Go on'',
               targetNodeId = ''ai-node-1000-0''\<rparr>]
   \<and> object_keys (nodes (mergeAiResult cave_story ''cave'' (scene ''cave'' []) cave_expansion
         fixed_clock)) = [''start'', ''cave'', ''ai-node-1000-0'']
   \<and> set [''start'', ''cave'', ''ai-node-1000-0'']
        \<subseteq> set (object_keys (nodes (mergeAiResult
                  (mergeAiResult cave_story ''cave'' (scene ''cave'' []) cave_expansion fixed_clock)
                  ''cave'' (scene ''cave'' []) silent_expansion fixed_clock)))"
proof -
  let ?first = "mergeAiResult cave_story ''cave'' (scene ''cave'' []) cave_expansion fixed_clock"
  have first: "nodes ?first
      = [(''start'', scene ''start'' [edge ''c1'' ''cave'']),
         (''cave'',
            \<lparr>node_id = ''cave'', title = ''cave'', content = ''A light ahead.'',
             choices =
               [\<lparr>choice_id = ''ai-choice-1000-0'', choice_text = ''Go on'',
                 targetNodeId = ''ai-node-1000-0''\<rparr>,
                \<lparr>choice_id = ''ai-link-1000-1'', choice_text = ''Turn back'',
                 targetNodeId = ''start''\<rparr>],
             isAiGenerated = None, imageUrl = None\<rparr>),
         (''ai-node-1000-0'',
            \<lparr>node_id = ''ai-node-1000-0'', title = ''The Path of Go on'',
             content = ''The story unfolds...'', choices = [],
             isAiGenerated = Some True, imageUrl = None\<rparr>)]"
    by (simp add: mergeAiResult_def expandChoice_def linksExisting_def
        prop_truthy_def mintedNode_def orDefault_def aiId_def digits.simps digit_char_def
        cave_story_def cave_expansion_def fixed_clock_def scene_def edge_def Let_def)
  have built: "fst (mapChoices fixed_clock 0 (nodes ?first) (expansion_choices silent_expansion))
      = [\<lparr>choice_id = ''ai-choice-1000-0'', choice_text = ''Go on'',
           targetNodeId = ''ai-node-1000-0''\<rparr>]"
    unfolding first
    by (simp add: expandChoice_def linksExisting_def mintedNode_def orDefault_def aiId_def
          digits.simps digit_char_def silent_expansion_def fixed_clock_def Let_def)
  have keys: "object_keys (nodes ?first) = [''start'', ''cave'', ''ai-node-1000-0'']"
    unfolding first by (simp add: object_keys_def)
  from C6_expansion_overwrites [of cave_story "''cave''" "scene ''cave'' []" cave_expansion
      fixed_clock "scene ''cave'' []" silent_expansion fixed_clock]
  show ?thesis
    unfolding Let_def built keys by simp
qed

subsection \<open>Creating nodes\<close>

lemma position_nth: "distinct xs \<Longrightarrow> i < length xs \<Longrightarrow> position xs (xs ! i) = i"
proof (induction xs arbitrary: i)
  case Nil
  then show ?case by simp
next
  case (Cons x xs)
  show ?case
  proof (cases i)
    case 0
    then show ?thesis by simp
  next
    case (Suc j)
    with Cons.prems have "xs ! j \<in> set xs" "x \<notin> set xs" by auto
    then have "x \<noteq> xs ! j" by blast
    with Cons Suc show ?thesis by simp
  qed
qed

lemma digit_value_char: "d < 10 \<Longrightarrow> digit_value (digit_char d) = d"
  unfolding digit_value_def digit_char_def by (rule position_nth) simp_all

lemma decimal_value_append:
  "decimal_value acc (xs @ ys) = decimal_value (decimal_value acc xs) ys"
  by (induction xs arbitrary: acc) simp_all

lemma decimal_value_digits: "decimal_value 0 (digits n) = n"
proof (induction n rule: digits.induct)
  case (1 n)
  show ?case
  proof (cases "n < 10")
    case True
    then show ?thesis by (simp add: digits.simps digit_value_char)
  next
    case False
    with 1 have "decimal_value 0 (digits (n div 10)) = n div 10" by simp
    with False show ?thesis
      by (subst digits.simps) (simp add: decimal_value_append digit_value_char)
  qed
qed

lemma digits_inj: "digits m = digits n \<Longrightarrow> m = n"
  by (metis decimal_value_digits)

lemma newNodeId_inj: "newNodeId m = newNodeId n \<longleftrightarrow> m = n"
  by (auto simp: newNodeId_def dest: digits_inj)

lemma distinct_newNodeIds: "distinct ts \<Longrightarrow> distinct (map newNodeId ts)"
  by (simp add: distinct_map inj_on_def newNodeId_inj)

lemma prop_get_creates:
  "prop_get (nodes (fold (\<lambda>now s. handleAddNode s now) ts story)) k
     = (if k \<in> newNodeId ` set ts then Some (newNode k) else prop_get (nodes story) k)"
proof (induction ts arbitrary: story)
  case Nil
  show ?case by simp
next
  case (Cons t ts)
  have step: "prop_get (nodes (handleAddNode story t)) k'
                = (if k' = newNodeId t then Some (newNode k') else prop_get (nodes story) k')" for k'
    by (simp add: handleAddNode_def Let_def prop_get_set)
  show ?case by (simp add: Cons.IH step)
qed

lemma keys_creates:
  "distinct ts \<Longrightarrow> \<forall>t \<in> set ts. newNodeId t \<notin> set (object_keys (nodes story)) \<Longrightarrow>
   object_keys (nodes (fold (\<lambda>now s. handleAddNode s now) ts story))
     = object_keys (nodes story) @ map newNodeId ts"
proof (induction ts arbitrary: story)
  case Nil
  show ?case by simp
next
  case (Cons t ts)
  let ?s = "handleAddNode story t"
  have k: "object_keys (nodes ?s) = object_keys (nodes story) @ [newNodeId t]"
    using Cons.prems(2) by (simp add: handleAddNode_def Let_def keys_prop_set)
  have "\<forall>u \<in> set ts. newNodeId u \<notin> set (object_keys (nodes ?s))"
    using Cons.prems by (auto simp: k newNodeId_inj)
  moreover have "distinct ts" using Cons.prems(1) by simp
  ultimately have "object_keys (nodes (fold (\<lambda>now s. handleAddNode s now) ts ?s))
     = object_keys (nodes ?s) @ map newNodeId ts" by (rule Cons.IH [rotated])
  then show ?case by (simp add: k)
qed

text \<open>
  C9, as stated, fails: the id is \<^verbatim>\<open>node-<Date.now()>\<close>, so two creates that read the
  same millisecond are given the same id, and the second overwrites the node of the
  first instead of appending one.
\<close>

theorem C9_counterexample:
  "map newNodeId [1700000000000, 1700000000000] = [''node-1700000000000'', ''node-1700000000000'']
   \<and> \<not> distinct (map newNodeId [1700000000000, 1700000000000])
   \<and> object_keys (nodes chain_story) = [''A'', ''B'', ''C'']
   \<and> object_keys (nodes (fold (\<lambda>now s. handleAddNode s now) [1700000000000, 1700000000000]
        chain_story)) = [''A'', ''B'', ''C'', ''node-1700000000000'']"
  by (simp add: newNodeId_def digits.simps digit_char_def handleAddNode_def Let_def
        chain_story_def object_keys_def)

text \<open>
  C9, amended. For every document and every sequence of creates, with \<open>ts\<close> the clock
  readings of the creates in order: no create is refused, and after the sequence every
  assigned id is a key that holds a node with that id and an empty choice list. The ids
  assigned are pairwise distinct when the readings are pairwise distinct. When, moreover,
  none of the ids is a key of the document beforehand, each create appends: the keys
  afterwards are the keys before followed by the new ids in order.
\<close>

theorem C9_create_node_ids:
  "(\<forall>t \<in> set ts.
       prop_get (nodes (fold (\<lambda>now s. handleAddNode s now) ts story)) (newNodeId t)
         = Some (newNode (newNodeId t))
       \<and> node_id (newNode (newNodeId t)) = newNodeId t
       \<and> choices (newNode (newNodeId t)) = [])
   \<and> (distinct ts \<longrightarrow> distinct (map newNodeId ts))
   \<and> (distinct ts \<and> (\<forall>t \<in> set ts. newNodeId t \<notin> set (object_keys (nodes story)))
        \<longrightarrow> object_keys (nodes (fold (\<lambda>now s. handleAddNode s now) ts story))
              = object_keys (nodes story) @ map newNodeId ts)"
  using keys_creates [of ts story]
  by (auto simp: prop_get_creates distinct_newNodeIds newNode_def)

theorem C9_create_node_ids_witness:
  "distinct [1700000000000, 1700000000001 :: nat]
   \<and> newNodeId 1700000000000 \<notin> set (object_keys (nodes chain_story))
   \<and> newNodeId 1700000000001 \<notin> set (object_keys (nodes chain_story))
   \<and> distinct (map newNodeId [1700000000000, 1700000000001])
   \<and> object_keys (nodes (fold (\<lambda>now s. handleAddNode s now) [1700000000000, 1700000000001]
        chain_story))
       = [''A'', ''B'', ''C'', ''node-1700000000000'', ''node-1700000000001'']
   \<and> map_option choices
        (prop_get (nodes (fold (\<lambda>now s. handleAddNode s now) [1700000000000, 1700000000001]
           chain_story)) ''node-1700000000000'') = Some []"
proof -
  have ids: "newNodeId 1700000000000 = ''node-1700000000000''"
    "newNodeId 1700000000001 = ''node-1700000000001''"
    by (simp_all add: newNodeId_def digits.simps digit_char_def)
  have keys: "object_keys (nodes chain_story) = [''A'', ''B'', ''C'']"
    by (simp add: chain_story_def object_keys_def)
  from C9_create_node_ids [of "[1700000000000, 1700000000001]" chain_story]
  show ?thesis
    unfolding ids keys by (simp add: ids)
qed

subsection \<open>Playback\<close>

lemma restart_history: "history (restart story sess confirmed) = history sess"
  by (simp add: restart_def)

text \<open>
  C7. The Restart button sets \<^verbatim>\<open>currentNodeId\<close> and nothing else. After the walk
  \<open>A\<close>, \<open>B\<close>, \<open>C\<close> in \<open>chain_story\<close>, a confirmed restart leaves the history
  \<open>[A, B, C]\<close> where the claim asks for \<open>[A]\<close>; the next step back then lands on \<open>B\<close>.
\<close>

theorem C7_restart_keeps_history:
  "handleChoice (handleChoice (initialSession chain_story) ''B'') ''C''
     = \<lparr>currentNodeId = ''C'', history = [''A'', ''B'', ''C'']\<rparr>
   \<and> restart chain_story \<lparr>currentNodeId = ''C'', history = [''A'', ''B'', ''C'']\<rparr> True
     = \<lparr>currentNodeId = ''A'', history = [''A'', ''B'', ''C'']\<rparr>
   \<and> handleStepBack \<lparr>currentNodeId = ''A'', history = [''A'', ''B'', ''C'']\<rparr>
     = \<lparr>currentNodeId = ''B'', history = [''A'', ''B'']\<rparr>"
  by (simp add: handleChoice_def initialSession_def restart_def handleStepBack_def chain_story_def
        Let_def)

subsection \<open>Import\<close>

lemma editor_import_rejects_missing:
  "raw_nodes imp = None \<or> raw_startNodeId imp = None \<or> raw_name imp = None \<Longrightarrow>
   StoryEditor_handleImportFile story (Parsed imp) = (ImportFailed, story)"
  by (auto simp: StoryEditor_handleImportFile_def truthy_def)

lemma editor_import_rejects_empty:
  "raw_startNodeId imp = Some [] \<or> raw_name imp = Some [] \<Longrightarrow>
   StoryEditor_handleImportFile story (Parsed imp) = (ImportFailed, story)"
  by (auto simp: StoryEditor_handleImportFile_def truthy_def)

lemma editor_import_replaces:
  "raw_nodes imp = Some ns \<Longrightarrow> raw_startNodeId imp = Some s \<Longrightarrow> s \<noteq> [] \<Longrightarrow>
   raw_name imp = Some nm \<Longrightarrow> nm \<noteq> [] \<Longrightarrow>
   StoryEditor_handleImportFile story (Parsed imp)
     = (SagaIntegrated,
        \<lparr>story_id = raw_id imp, name = nm, nodes = ns, startNodeId = s,
         imageStyle = raw_imageStyle imp\<rparr>)"
  by (simp add: StoryEditor_handleImportFile_def truthy_def asStory_def)

lemma editor_import_rejects_lost:
  "StoryEditor_handleImportFile chain_story (Parsed lost_import) = (ImportFailed, chain_story)"
  by (rule editor_import_rejects_missing) (simp add: lost_import_def)

lemma app_import_stages:
  "raw_nodes imp = Some ns \<Longrightarrow> resizeNodes resize (object_keys ns) ns = Some ns' \<Longrightarrow>
   App_handleImportFile pending (Parsed imp) resize = (SagaDetected, Some (imp\<lparr>raw_nodes := Some ns'\<rparr>))"
  by (simp add: App_handleImportFile_def)

text \<open>
  C4. The editor's import refuses \<open>lost_import\<close>, which has no \<^verbatim>\<open>startNodeId\<close>
  (\<open>editor_import_rejects_lost\<close>). The welcome screen's import stages it, and
  \<^verbatim>\<open>finalizeImport\<close> makes it the document in place of \<open>chain_story\<close>.
\<close>

theorem C4_welcome_import_unchecked:
  "raw_startNodeId lost_import = None
   \<and> App_handleImportFile None (Parsed lost_import) loaded = (SagaDetected, Some lost_import)
   \<and> finalizeImport (asRaw chain_story) (Some lost_import) = (lost_import, None)
   \<and> lost_import \<noteq> asRaw chain_story"
  by (simp add: App_handleImportFile_def finalizeImport_def lost_import_def loaded_def
        resizeNode_def object_keys_def scene_def asRaw_def chain_story_def)

subsection \<open>Orphan detection\<close>

lemma entry_prop_set: "(k, v) \<in> set (prop_set obj k v)"
  by (induction obj) auto

lemma values_prop_set_mem: "v \<in> set (object_values (prop_set obj k v))"
  using entry_prop_set [of k v obj] by (force simp: object_values_def)

lemma values_prop_set_distinct:
  "distinct (object_keys obj) \<Longrightarrow>
   set (object_values (prop_set obj k v)) = insert v {w. \<exists>k'. k' \<noteq> k \<and> (k', w) \<in> set obj}"
proof (induction obj)
  case Nil
  show ?case by (simp add: object_values_def)
next
  case (Cons p obj)
  obtain k0 v0 where p: "p = (k0, v0)" by (cases p)
  from Cons.prems have d: "distinct (object_keys obj)" and fresh: "k0 \<notin> set (object_keys obj)"
    by (simp_all add: object_keys_def p)
  show ?case
  proof (cases "k0 = k")
    case True
    have "\<And>w k'. (k', w) \<in> set obj \<Longrightarrow> k' \<noteq> k"
      using fresh True by (force simp: object_keys_def)
    then have "{w. \<exists>k'. k' \<noteq> k \<and> (k', w) \<in> set (p # obj)} = snd ` set obj"
      using True by (force simp: p)
    then show ?thesis using True by (simp add: p object_values_def)
  next
    case False
    have "{w. \<exists>k'. k' \<noteq> k \<and> (k', w) \<in> set (p # obj)}
            = insert v0 {w. \<exists>k'. k' \<noteq> k \<and> (k', w) \<in> set obj}"
      using False by (auto simp: p)
    then show ?thesis using False Cons.IH [OF d] by (auto simp: p object_values_def)
  qed
qed

lemma filterIndex_shift: "filterIndex (\<lambda>i. i \<noteq> Suc idx) (Suc i) xs = filterIndex (\<lambda>i. i \<noteq> idx) i xs"
  by (induction xs arbitrary: i) auto

lemma filterIndex_all: "(\<And>j. i \<le> j \<Longrightarrow> p j) \<Longrightarrow> filterIndex p i xs = xs"
  by (induction xs arbitrary: i) auto

lemma filterIndex_remove: "filterIndex (\<lambda>i. i \<noteq> idx) 0 xs = take idx xs @ drop (Suc idx) xs"
proof (induction xs arbitrary: idx)
  case Nil
  show ?case by simp
next
  case (Cons x xs)
  show ?case
  proof (cases idx)
    case 0
    then show ?thesis by (simp add: filterIndex_all)
  next
    case (Suc j)
    then show ?thesis using Cons.IH [of j] by (simp add: filterIndex_shift)
  qed
qed

lemma isOrphan_mount_iff:
  "isOrphan (mountEditor story) node \<longleftrightarrow>
     node_id node \<noteq> startNodeId story
     \<and> (\<forall>owner \<in> set (object_values (nodes story)). \<forall>c \<in> set (choices owner).
           targetNodeId c \<noteq> node_id node)"
proof -
  have "node_id node \<in> collectLinkedNodeIds (nodes story) \<longleftrightarrow>
          (\<exists>owner \<in> set (object_values (nodes story)). \<exists>c \<in> set (choices owner).
             targetNodeId c = node_id node)"
    unfolding collectLinkedNodeIds_eq by force
  then show ?thesis unfolding isOrphan_def mountEditor_def by simp
qed

lemma mount_not_orphan_if_targeted:
  "owner \<in> set (object_values (nodes story)) \<Longrightarrow> c \<in> set (choices owner)
     \<Longrightarrow> targetNodeId c = node_id node \<Longrightarrow> \<not> isOrphan (mountEditor story) node"
  by (auto simp: isOrphan_mount_iff)

text \<open>
  An editor mounted on the document after the edit reports what the document holds: a
  node that a saved choice targets is no orphan, and a node whose only targeting choice
  was removed is one.
\<close>

lemma remount_after_add_choice:
  assumes "node_id editNode \<noteq> ''__proto__''"
  shows "\<not> isOrphan
      (mountEditor (handleSaveNode story
         (map_option (\<lambda>e. retargetChoice e (length (choices editNode)) (node_id node))
            (handleAddChoice story (Some editNode) now))))
      node"
proof -
  let ?c = "\<lparr>choice_id = ''choice-'' @ digits now, choice_text = ''New Path'',
             targetNodeId = node_id node\<rparr>"
  let ?e = "editNode\<lparr>choices := choices editNode @ [?c]\<rparr>"
  have draft: "map_option (\<lambda>e. retargetChoice e (length (choices editNode)) (node_id node))
            (handleAddChoice story (Some editNode) now) = Some ?e"
    by (simp add: handleAddChoice_def retargetChoice_def)
  have "?e \<in> set (object_values (nodes (handleSaveNode story (Some ?e))))"
    by (simp add: handleSaveNode_def values_prop_set_mem)
  moreover have "?c \<in> set (choices ?e)" by simp
  ultimately have "\<not> isOrphan (mountEditor (handleSaveNode story (Some ?e))) node"
    by (rule mount_not_orphan_if_targeted) simp
  then show ?thesis unfolding draft .
qed

lemma remount_after_remove_choice:
  assumes dist: "distinct (object_keys (nodes story))"
    and others: "\<forall>(k, owner) \<in> set (nodes story). k \<noteq> node_id editNode \<longrightarrow>
                   (\<forall>c \<in> set (choices owner). targetNodeId c \<noteq> node_id node)"
    and only: "\<forall>j < length (choices editNode). j \<noteq> idx \<longrightarrow>
                 targetNodeId (choices editNode ! j) \<noteq> node_id node"
    and nonstart: "node_id node \<noteq> startNodeId story"
  shows "isOrphan (mountEditor (handleSaveNode story (Some (removeChoice editNode idx)))) node"
proof -
  let ?e = "removeChoice editNode idx"
  have id: "node_id ?e = node_id editNode" by (simp add: removeChoice_def)
  have ch: "choices ?e = take idx (choices editNode) @ drop (Suc idx) (choices editNode)"
    by (simp add: removeChoice_def filterIndex_remove)
  have kept: "targetNodeId c \<noteq> node_id node" if "c \<in> set (choices ?e)" for c
  proof -
    from that consider "c \<in> set (take idx (choices editNode))"
      | "c \<in> set (drop (Suc idx) (choices editNode))" by (auto simp: ch)
    then show ?thesis
    proof cases
      case 1
      then obtain j where "j < length (take idx (choices editNode))" "take idx (choices editNode) ! j = c"
        by (auto simp: in_set_conv_nth)
      then have "j < length (choices editNode)" "j \<noteq> idx" "choices editNode ! j = c" by auto
      with only show ?thesis by blast
    next
      case 2
      then obtain j where j: "j < length (drop (Suc idx) (choices editNode))"
          "drop (Suc idx) (choices editNode) ! j = c"
        by (auto simp: in_set_conv_nth)
      then have "Suc idx + j < length (choices editNode)" "Suc idx + j \<noteq> idx"
        "choices editNode ! (Suc idx + j) = c" by auto
      with only show ?thesis by blast
    qed
  qed
  have vals: "set (object_values (nodes (handleSaveNode story (Some ?e))))
                = insert ?e {w. \<exists>k'. k' \<noteq> node_id editNode \<and> (k', w) \<in> set (nodes story)}"
    using dist by (simp add: handleSaveNode_def values_prop_set_distinct id)
  have start: "startNodeId (handleSaveNode story (Some ?e)) = startNodeId story"
    by (simp add: handleSaveNode_def)
  show ?thesis
    unfolding isOrphan_mount_iff vals start
    using nonstart others kept by fastforce
qed

text \<open>
  Within one mount the report does not follow the document. No committed mutation
  replaces the \<^verbatim>\<open>nodes\<close> object, so the memoised set is the one computed at mount
  whatever has been committed since; only an accepted import computes it anew.
\<close>

lemma commit_startNodeId: "startNodeId (commit story m) = startNodeId story"
  by (cases m)
     (simp_all add: handleAddNode_def handleSaveNode_def handleAddChoice_def handleDeleteNode_def
        start_mergeAiResult Let_def)

lemma editorCommit_keeps_set: "linkedNodeIds (editorCommit ed m) = linkedNodeIds ed"
  by (simp add: editorCommit_def renderEditor_def)

lemma editorCommits_keep_report:
  "isOrphan (fold (\<lambda>m ed. editorCommit ed m) ms (mountEditor story)) node
     \<longleftrightarrow> isOrphan (mountEditor story) node"
proof -
  have "linkedNodeIds (fold (\<lambda>m ed. editorCommit ed m) ms ed) = linkedNodeIds ed
        \<and> startNodeId (editor_story (fold (\<lambda>m ed. editorCommit ed m) ms ed))
            = startNodeId (editor_story ed)" for ed
  proof (induction ms arbitrary: ed)
    case Nil
    show ?case by simp
  next
    case (Cons m ms)
    have "startNodeId (editor_story (editorCommit ed m)) = startNodeId (editor_story ed)"
      by (simp add: editorCommit_def renderEditor_def commit_startNodeId)
    with Cons [of "editorCommit ed m"] show ?case by (simp add: editorCommit_keeps_set)
  qed
  then show ?thesis by (simp add: isOrphan_def)
qed

lemma editorImport_recomputes:
  "StoryEditor_handleImportFile (editor_story ed) file = (SagaIntegrated, imported) \<Longrightarrow>
   editorImport ed file = mountEditor imported"
  by (simp add: editorImport_def renderEditor_def mountEditor_def)

text \<open>
  C8. On mount a node is reported as an orphan exactly when its id is not the start
  node's and no stored choice targets it (\<open>isOrphan_mount_iff\<close>). The report then stays
  what it was at mount. In \<open>lonely_story\<close> the editor reports \<open>X\<close> as an orphan; the user
  adds a choice to \<open>S\<close>, points it at \<open>X\<close> and saves; the document holds the choice and
  \<open>X\<close> is still reported. In \<open>orphan_story\<close> the editor does not report \<open>X\<close>; the user
  removes the only choice targeting \<open>X\<close> and saves; the document holds no choice and \<open>X\<close>
  is still not reported.
\<close>

theorem C8_orphan_report_stale:
  "isOrphan (mountEditor lonely_story) (scene ''X'' [])
   \<and> handleAddChoice lonely_story (Some (scene ''S'' [])) 5 = Some (scene ''S'' [new_path ''S''])
   \<and> retargetChoice (scene ''S'' [new_path ''S'']) 0 ''X'' = scene ''S'' [new_path ''X'']
   \<and> nodes (editor_story (editorCommit (mountEditor lonely_story)
               (EditNode (scene ''S'' [new_path ''X'']))))
        = [(''S'', scene ''S'' [new_path ''X'']), (''X'', scene ''X'' [])]
   \<and> isOrphan (editorCommit (mountEditor lonely_story) (EditNode (scene ''S'' [new_path ''X''])))
        (scene ''X'' [])
   \<and> \<not> isOrphan (mountEditor orphan_story) (scene ''X'' [])
   \<and> nodes (editor_story (editorCommit (mountEditor orphan_story)
               (RemoveChoice (scene ''S'' [edge ''sx'' ''X'']) 0)))
        = [(''S'', scene ''S'' []), (''X'', scene ''X'' [])]
   \<and> \<not> isOrphan (editorCommit (mountEditor orphan_story)
               (RemoveChoice (scene ''S'' [edge ''sx'' ''X'']) 0))
          (scene ''X'' [])"
  by (simp add: isOrphan_def editorCommit_def renderEditor_def mountEditor_def
        collectLinkedNodeIds_def object_values_def handleSaveNode_def handleAddChoice_def
        retargetChoice_def removeChoice_def lonely_story_def orphan_story_def new_path_def
        scene_def edge_def digits.simps digit_char_def)

text \<open>
  C10. The test is for membership in the set of targeted ids, not for reachability, and
  on mount a node that any stored choice targets is not reported
  (\<open>mount_not_orphan_if_targeted\<close>, \<open>cluster_story_unreachable_not_orphans\<close>). Within a
  mount the same stale set decides: in \<open>scattered_story\<close> the user saves a choice from
  \<open>X\<close> to \<open>Y\<close> and one from \<open>Y\<close> to \<open>X\<close>; both nodes are now targets of a stored choice,
  neither is the start node, and both are still reported as orphans.
\<close>

theorem C10_targeted_nodes_reported_orphans:
  "nodes (editor_story
       (editorCommit (editorCommit (mountEditor scattered_story)
          (EditNode (scene ''X'' [edge ''xy'' ''Y''])))
          (EditNode (scene ''Y'' [edge ''yx'' ''X'']))))
     = [(''S'', scene ''S'' []),
        (''X'', scene ''X'' [edge ''xy'' ''Y'']),
        (''Y'', scene ''Y'' [edge ''yx'' ''X''])]
   \<and> targetNodeId (edge ''yx'' ''X'') = node_id (scene ''X'' [])
   \<and> targetNodeId (edge ''xy'' ''Y'') = node_id (scene ''Y'' [])
   \<and> isOrphan
        (editorCommit (editorCommit (mountEditor scattered_story)
           (EditNode (scene ''X'' [edge ''xy'' ''Y''])))
           (EditNode (scene ''Y'' [edge ''yx'' ''X''])))
        (scene ''X'' [])
   \<and> isOrphan
        (editorCommit (editorCommit (mountEditor scattered_story)
           (EditNode (scene ''X'' [edge ''xy'' ''Y''])))
           (EditNode (scene ''Y'' [edge ''yx'' ''X''])))
        (scene ''Y'' [])"
  by (simp add: isOrphan_def editorCommit_def renderEditor_def mountEditor_def
        collectLinkedNodeIds_def object_values_def handleSaveNode_def scattered_story_def
        scene_def edge_def)

lemma cluster_story_reachable: "reachable cluster_story a \<Longrightarrow> a = ''S''"
  by (induction rule: reachable.induct) (auto simp: cluster_story_def scene_def)

lemma cluster_story_unreachable_not_orphans:
  "\<not> reachable cluster_story ''X'' \<and> \<not> reachable cluster_story ''Y''
   \<and> \<not> reachable cluster_story ''Z''
   \<and> \<not> isOrphan (mountEditor cluster_story) (scene ''X'' [edge ''xy'' ''Y''])
   \<and> \<not> isOrphan (mountEditor cluster_story) (scene ''Y'' [edge ''yx'' ''X''])
   \<and> \<not> isOrphan (mountEditor cluster_story) (scene ''Z'' [edge ''zz'' ''Z''])"
proof -
  have "\<not> reachable cluster_story ''X''" "\<not> reachable cluster_story ''Y''"
    "\<not> reachable cluster_story ''Z''"
    using cluster_story_reachable by fastforce+
  moreover have "\<not> isOrphan (mountEditor cluster_story) (scene ''X'' [edge ''xy'' ''Y''])"
    by (rule mount_not_orphan_if_targeted [of "scene ''Y'' [edge ''yx'' ''X'']" _ "edge ''yx'' ''X''"])
       (simp_all add: cluster_story_def object_values_def scene_def edge_def)
  moreover have "\<not> isOrphan (mountEditor cluster_story) (scene ''Y'' [edge ''xy'' ''X''])
                 \<or> \<not> isOrphan (mountEditor cluster_story) (scene ''Y'' [edge ''yx'' ''X''])"
    using mount_not_orphan_if_targeted
      [of "scene ''X'' [edge ''xy'' ''Y'']" cluster_story "edge ''xy'' ''Y''" "scene ''Y'' [edge ''yx'' ''X'']"]
    by (simp add: cluster_story_def object_values_def scene_def edge_def)
  then have "\<not> isOrphan (mountEditor cluster_story) (scene ''Y'' [edge ''yx'' ''X''])"
    by (simp add: isOrphan_def scene_def)
  moreover have "\<not> isOrphan (mountEditor cluster_story) (scene ''Z'' [edge ''zz'' ''Z''])"
    by (rule mount_not_orphan_if_targeted [of "scene ''Z'' [edge ''zz'' ''Z'']" _ "edge ''zz'' ''Z''"])
       (simp_all add: cluster_story_def object_values_def scene_def edge_def)
  ultimately show ?thesis by simp
qed

end
